theory Spec2Isabelle
  imports Complex_Main "HOL-Library.Word" "HOL-Library.Multiset"
begin

section \<open>Room presence detection: master and slave receivers\<close>

text \<open>
  The development embeds the detection code of the two firmware images
  \<^verbatim>\<open>recv_master_RX1/main/app_main.c\<close> and \<^verbatim>\<open>recv_slave/main/app_main.c\<close>.

  Conventions of the embedding:
  \<^item> a C \<^verbatim>\<open>float\<close> is a \<^typ>\<open>real\<close>: comparisons and arithmetic are exact, so rounding,
    infinities and NaN are outside the model;
  \<^item> \<^verbatim>\<open>uint32_t\<close> is \<^typ>\<open>32 word\<close> (subtraction and increment wrap), \<^verbatim>\<open>uint8_t\<close> is
    \<^typ>\<open>8 word\<close>; the \<^verbatim>\<open>int\<close> counters of the fusion pass never exceed 3 and are \<^typ>\<open>int\<close>;
  \<^item> a fixed-size C array is a function from the index, read only inside its bounds;
  \<^item> global variables are the fields of a state record that every function takes and returns;
    \<^verbatim>\<open>esp_log_timestamp()\<close> is an argument \<open>now\<close>;
  \<^item> the fields of the master's global state carry the prefix \<open>ms_\<close> and those of the slave's
    the prefix \<open>ds_\<close>, since the three C structs share field names;
  \<^item> what a function hands to the outside (LED arguments, messages sent, response bodies)
    is part of its result; logging, the LED driver, the key-value store and the mutex
    around the fused flags are not modelled, and every function runs to its end before the
    next one starts.
\<close>

subsection \<open>Master: per-link status and global state\<close>

record link_status =
  active :: bool
  room_status :: bool
  human_status :: bool
  wander :: real
  jitter :: real
  rssi :: "8 word"
  last_update :: "32 word"
  wander_sensitivity :: real
  jitter_sensitivity :: real

record master_state =
  ms_wander_buff :: "nat \<Rightarrow> real"
  ms_jitter_buff :: "nat \<Rightarrow> real"
  ms_buff_count :: "32 word"
  ms_wander_threshold :: real
  ms_jitter_threshold :: real
  ms_links :: "nat \<Rightarrow> link_status"
  ms_room_status :: bool
  ms_human_status :: bool
  ms_calibrating :: bool
  ms_calibration_start_time :: "32 word"
  ms_calibration_duration_ms :: "32 word"

definition LINK_TIMEOUT_MS :: "32 word" where
  "LINK_TIMEOUT_MS = 3000"

text \<open>The counters local to one fusion pass.\<close>

record fuse_counts =
  detection_count :: int
  motion_count :: int
  active_count :: int

definition recalculate_link_status :: "nat \<Rightarrow> master_state \<Rightarrow> master_state" where
  "recalculate_link_status link_idx s =
     (let link = ms_links s link_idx in
      if \<not> active link then s
      else
        let link1 = link\<lparr>room_status :=
                      (if ms_wander_threshold s > 0
                       then wander link * wander_sensitivity link > ms_wander_threshold s
                       else False)\<rparr>;
            link2 = link1\<lparr>human_status :=
                      (if ms_jitter_threshold s > 0
                       then jitter link1 * jitter_sensitivity link1 > ms_jitter_threshold s
                       else False)\<rparr>
        in s\<lparr>ms_links := (ms_links s)(link_idx := link2)\<rparr>)"

text \<open>
  The body of the loop \<^verbatim>\<open>for (int i = 0; i < 3; i++)\<close> of \<^verbatim>\<open>fuse_detection_results\<close>:
  a link that is flagged active and was updated less than \<^const>\<open>LINK_TIMEOUT_MS\<close> ago is
  counted (link 0 is re-classified first); any other link is marked inactive.
\<close>

definition fuse_link ::
  "32 word \<Rightarrow> nat \<Rightarrow> master_state \<times> fuse_counts \<Rightarrow> master_state \<times> fuse_counts" where
  "fuse_link now i sc =
     (let s = fst sc; c = snd sc in
      if active (ms_links s i) \<and> now - last_update (ms_links s i) < LINK_TIMEOUT_MS
      then
        let c1 = c\<lparr>active_count := active_count c + 1\<rparr>;
            s1 = (if i = 0 then recalculate_link_status i s else s);
            c2 = (if room_status (ms_links s1 i) \<or> human_status (ms_links s1 i)
                  then c1\<lparr>detection_count := detection_count c1 + 1\<rparr> else c1);
            c3 = (if human_status (ms_links s1 i)
                  then c2\<lparr>motion_count := motion_count c2 + 1\<rparr> else c2)
        in (s1, c3)
      else (s\<lparr>ms_links := (ms_links s)(i := (ms_links s i)\<lparr>active := False\<rparr>)\<rparr>, c))"

definition fuse_loop :: "32 word \<Rightarrow> master_state \<Rightarrow> master_state \<times> fuse_counts" where
  "fuse_loop now s =
     fold (fuse_link now) [0, 1, 2]
       (s, \<lparr>detection_count = 0, motion_count = 0, active_count = 0\<rparr>)"

definition fuse_detection_results :: "32 word \<Rightarrow> master_state \<Rightarrow> master_state" where
  "fuse_detection_results now s =
     (let sc = fuse_loop now s;
          s1 = fst sc; c = snd sc;
          min_detection = (if active_count c \<ge> 2 then 2 else 1);
          s2 = s1\<lparr>ms_room_status := (detection_count c \<ge> min_detection)\<rparr>;
          s3 = s2\<lparr>ms_human_status := (ms_room_status s2 \<and> motion_count c \<ge> min_detection)\<rparr>
      in s3)"


text \<open>
  \<^verbatim>\<open>http_get_status\<close>: the numbers printed into the status JSON, which is what the master
  publishes (the WebSocket broadcast prints the same fields of \<^verbatim>\<open>g_state\<close>).
\<close>

record status_link =
  sl_active :: int
  sl_room :: int
  sl_move :: int
  sl_wander :: real
  sl_jitter :: real

record status_body =
  st_room :: int
  st_moving :: int
  st_calibrating :: int
  st_links :: "status_link list"

definition http_get_status :: "master_state \<Rightarrow> status_body" where
  "http_get_status s =
     \<lparr>st_room = (if ms_room_status s then 1 else 0),
      st_moving = (if ms_human_status s then 1 else 0),
      st_calibrating = (if ms_calibrating s then 1 else 0),
      st_links =
        map (\<lambda>i. \<lparr>sl_active = (if active (ms_links s i) then 1 else 0),
                    sl_room = (if room_status (ms_links s i) then 1 else 0),
                    sl_move = (if human_status (ms_links s i) then 1 else 0),
                    sl_wander = wander (ms_links s i),
                    sl_jitter = jitter (ms_links s i)\<rparr>) [0, 1, 2]\<rparr>"

text \<open>
  \<^verbatim>\<open>http_post_sensitivity\<close>. The argument is the request body: \<open>None\<close> when
  \<^verbatim>\<open>httpd_req_recv\<close> returns nothing (the handler then answers with all settings), otherwise
  the body as scanned by \<^verbatim>\<open>strstr\<close>/\<^verbatim>\<open>atoi\<close>/\<^verbatim>\<open>strtof\<close>: each of the three fields is present
  with a value or absent, and an absent field keeps the initial \<open>-1\<close>. The result is the new
  state, the returned status code, the response body, the SetSensitivity command broadcast
  to a slave, if any, and whether \<^verbatim>\<open>nvs_save_settings\<close> was called. Every path returns
  \<^verbatim>\<open>ESP_OK\<close>.
\<close>

record sensitivity_request =
  req_link :: "int option"
  req_wander_sens :: "real option"
  req_jitter_sens :: "real option"

datatype esp_err = ESP_OK | ESP_FAIL

datatype sensitivity_response =
    RespAll real real "(real \<times> real) list"
  | RespInvalidLink
  | RespLink int real real

record sensitivity_cmd =
  cmd_target :: "8 word"
  cmd_wander_sensitivity :: real
  cmd_jitter_sensitivity :: real

record sensitivity_result =
  sr_state :: master_state
  sr_ret :: esp_err
  sr_body :: sensitivity_response
  sr_sent :: "sensitivity_cmd option"
  sr_saved :: bool

definition http_post_sensitivity ::
  "sensitivity_request option \<Rightarrow> master_state \<Rightarrow> sensitivity_result" where
  "http_post_sensitivity body s =
     (case body of
        None \<Rightarrow>
          \<lparr>sr_state = s, sr_ret = ESP_OK,
           sr_body = RespAll (ms_wander_threshold s) (ms_jitter_threshold s)
                       (map (\<lambda>i. (wander_sensitivity (ms_links s i),
                                   jitter_sensitivity (ms_links s i))) [0, 1, 2]),
           sr_sent = None, sr_saved = False\<rparr>
      | Some req \<Rightarrow>
          let link_idx = (case req_link req of None \<Rightarrow> -1 | Some v \<Rightarrow> v);
              wander_sens = (case req_wander_sens req of None \<Rightarrow> -1 | Some v \<Rightarrow> v);
              jitter_sens = (case req_jitter_sens req of None \<Rightarrow> -1 | Some v \<Rightarrow> v)
          in
          if link_idx < 0 \<or> link_idx > 2
          then \<lparr>sr_state = s, sr_ret = ESP_OK, sr_body = RespInvalidLink,
                 sr_sent = None, sr_saved = False\<rparr>
          else
            let i = nat link_idx;
                s1 = (if wander_sens \<ge> 0.001 \<and> wander_sens \<le> 5.0
                      then s\<lparr>ms_links := (ms_links s)
                               (i := (ms_links s i)\<lparr>wander_sensitivity := wander_sens\<rparr>)\<rparr>
                      else s);
                s2 = (if jitter_sens \<ge> 0.001 \<and> jitter_sens \<le> 5.0
                      then s1\<lparr>ms_links := (ms_links s1)
                                (i := (ms_links s1 i)\<lparr>jitter_sensitivity := jitter_sens\<rparr>)\<rparr>
                      else s1);
                sent = (if link_idx > 0
                        then Some \<lparr>cmd_target = word_of_int link_idx,
                                   cmd_wander_sensitivity = wander_sensitivity (ms_links s2 i),
                                   cmd_jitter_sensitivity = jitter_sensitivity (ms_links s2 i)\<rparr>
                        else None)
            in \<lparr>sr_state = s2, sr_ret = ESP_OK,
                sr_body = RespLink link_idx (wander_sensitivity (ms_links s2 i))
                            (jitter_sensitivity (ms_links s2 i)),
                sr_sent = sent, sr_saved = True\<rparr>)"

subsection \<open>Smoothing: trimmed mean and median\<close>

text \<open>
  Both firmware images contain the same two functions. Each copies the window into a scratch
  buffer \<^verbatim>\<open>sorted\<close> (here \<open>sorted_buf\<close>) and bubble-sorts it in place; \<open>bubble_sort\<close> is
  that pair of nested loops, \<open>swap_if_greater\<close> the body of the inner one. The loops are
  only reached with \<^verbatim>\<open>len \<noteq> 0\<close>, so \<^verbatim>\<open>len - 1\<close> does not wrap.
\<close>

definition swap_if_greater :: "nat \<Rightarrow> real list \<Rightarrow> real list" where
  "swap_if_greater j sorted_buf =
     (if sorted_buf ! j > sorted_buf ! (j + 1)
      then (let temp = sorted_buf ! j in (sorted_buf[j := sorted_buf ! (j + 1)])[j + 1 := temp])
      else sorted_buf)"

definition bubble_sort :: "real list \<Rightarrow> real list" where
  "bubble_sort array =
     fold (\<lambda>i sorted_buf. fold swap_if_greater [0..<length array - i - 1] sorted_buf)
       [0..<length array - 1] array"

text \<open>
  \<^verbatim>\<open>trimmean(array, len, percent)\<close>. The flag \<open>alloc_ok\<close> is the outcome of \<^verbatim>\<open>malloc\<close>.
  \<^verbatim>\<open>trim = (size_t)(len * percent / 2)\<close> truncates towards zero; the conversion is undefined
  for a value of \<open>-1\<close> or less, and with \<^verbatim>\<open>trim > len\<close> the unsigned \<^verbatim>\<open>len - trim\<close> wraps and the
  summation loop reads past the buffer: both are the result \<open>None\<close>.
\<close>

definition trimmean :: "bool \<Rightarrow> real list \<Rightarrow> real \<Rightarrow> real option" where
  "trimmean alloc_ok array percent =
     (let len = length array in
      if len = 0 then Some 0
      else if \<not> alloc_ok then Some 0
      else
        let sorted_buf = bubble_sort array;
            v = real len * percent / 2
        in
        if v \<le> -1 then None
        else
          let trim = nat \<lfloor>v\<rfloor> in
          if trim > len then None
          else
            let acc = fold (\<lambda>i (sum, count). (sum + sorted_buf ! i, count + 1))
                        [trim..<len - trim] (0, 0 :: nat);
                sum = fst acc; count = snd acc
            in Some (if count > 0 then sum / real count else 0))"

definition median :: "bool \<Rightarrow> real list \<Rightarrow> real" where
  "median alloc_ok array =
     (let len = length array in
      if len = 0 then 0
      else if \<not> alloc_ok then 0
      else
        let sorted_buf = bubble_sort array in
        if len mod 2 = 0
        then (sorted_buf ! (len div 2 - 1) + sorted_buf ! (len div 2)) / 2
        else sorted_buf ! (len div 2))"

subsection \<open>Slave: detection state and callbacks\<close>

definition RADAR_BUFF_MAX_LEN :: nat where
  "RADAR_BUFF_MAX_LEN = 25"

record wifi_radar_info =
  waveform_wander :: real
  waveform_jitter :: real

record detection_state =
  ds_wander_buff :: "nat \<Rightarrow> real"
  ds_jitter_buff :: "nat \<Rightarrow> real"
  ds_buff_count :: "32 word"
  ds_wander_threshold :: real
  ds_jitter_threshold :: real
  ds_wander_sensitivity :: real
  ds_jitter_sensitivity :: real
  ds_room_status :: bool
  ds_human_status :: bool
  ds_calibrating :: bool

text \<open>
  The slave's globals: \<^verbatim>\<open>g_detect\<close>, the static \<^verbatim>\<open>s_last_send_time\<close> of \<^verbatim>\<open>wifi_radar_cb\<close>
  and \<^verbatim>\<open>g_node_id\<close>.
\<close>

record slave_state = detection_state +
  s_last_send_time :: "32 word"
  g_node_id :: "8 word"

record slave_report =
  msg_type :: "8 word"
  node_id :: "8 word"
  rp_room_status :: "8 word"
  rp_human_status :: "8 word"
  rp_wander :: real
  rp_jitter :: real
  rp_rssi :: "8 word"
  timestamp :: "32 word"

text \<open>
  What one call of the slave's \<^verbatim>\<open>wifi_radar_cb\<close> does to the outside: the arguments
  \<open>(room_status, human_status, calibrating)\<close> of its call of \<^verbatim>\<open>led_update_status\<close>, and the
  report handed to \<^verbatim>\<open>esp_now_send\<close>.
\<close>

record slave_output =
  out_led :: "(bool \<times> bool \<times> bool) option"
  out_report :: "slave_report option"

text \<open>
  What the environment decides during one call: the two \<^verbatim>\<open>malloc\<close> outcomes, the clock
  read for the send-rate check and the clock read for the report's timestamp.
\<close>

record slave_env =
  env_trimmean_alloc :: bool
  env_median_alloc :: bool
  env_now :: "32 word"
  env_timestamp :: "32 word"

definition send_result_to_master ::
  "32 word \<Rightarrow> real \<Rightarrow> real \<Rightarrow> 8 word \<Rightarrow> slave_state \<Rightarrow> slave_report" where
  "send_result_to_master ts wander_v jitter_v rssi_v s =
     \<lparr>msg_type = 0x01,
      node_id = g_node_id s,
      rp_room_status = (if ds_room_status s then 1 else 0),
      rp_human_status = (if ds_human_status s then 1 else 0),
      rp_wander = wander_v,
      rp_jitter = jitter_v,
      rp_rssi = rssi_v,
      timestamp = ts\<rparr>"

text \<open>
  The body of the voting loop \<^verbatim>\<open>for (uint32_t i = 0; i < buff_max_size; i++)\<close>; the pair is
  \<open>(someone_count, move_count)\<close>.
\<close>

definition vote_step ::
  "slave_state \<Rightarrow> real \<Rightarrow> real \<Rightarrow> bool \<Rightarrow> nat \<Rightarrow> nat \<times> nat \<Rightarrow> nat \<times> nat" where
  "vote_step s wander_average jitter_median has_valid_threshold i counts =
     (let someone_count = fst counts; move_count = snd counts;
          someone_count1 =
            (if has_valid_threshold \<and>
                wander_average * ds_wander_sensitivity s > ds_wander_threshold s
             then someone_count + 1 else someone_count);
          index = unat ((ds_buff_count s - 1 - of_nat i) mod 25);
          move_count1 =
            (if ds_jitter_threshold s > 0.0001 \<and>
                (ds_jitter_buff s index * ds_jitter_sensitivity s > ds_jitter_threshold s
                 \<or> (ds_jitter_buff s index * ds_jitter_sensitivity s > jitter_median
                     \<and> ds_jitter_buff s index > 0.0002))
             then move_count + 1 else move_count)
      in (someone_count1, move_count1))"

definition count_votes :: "slave_state \<Rightarrow> real \<Rightarrow> real \<Rightarrow> bool \<Rightarrow> nat \<times> nat" where
  "count_votes s wander_average jitter_median has_valid_threshold =
     fold (vote_step s wander_average jitter_median has_valid_threshold) [0..<5] (0, 0)"

text \<open>The first three statements of \<^verbatim>\<open>wifi_radar_cb\<close>: store the sample, advance the counter.\<close>

definition store_sample :: "wifi_radar_info \<Rightarrow> slave_state \<Rightarrow> slave_state" where
  "store_sample info s =
     (let slot = unat (ds_buff_count s mod 25) in
      s\<lparr>ds_wander_buff := (ds_wander_buff s)(slot := waveform_wander info),
        ds_jitter_buff := (ds_jitter_buff s)(slot := waveform_jitter info),
        ds_buff_count := ds_buff_count s + 1\<rparr>)"

definition wifi_radar_cb ::
  "slave_env \<Rightarrow> wifi_radar_info \<Rightarrow> slave_state \<Rightarrow> (slave_state \<times> slave_output) option" where
  "wifi_radar_cb env info s =
     (let buff_max_size = 5 :: 32 word;
          buff_outliers_num = 2 :: nat;
          s1 = store_sample info s
      in
      if ds_buff_count s1 < buff_max_size
      then Some (s1, \<lparr>out_led = None, out_report = None\<rparr>)
      else
        case trimmean (env_trimmean_alloc env)
               (map (ds_wander_buff s1) [0..<RADAR_BUFF_MAX_LEN]) 0.5 of
          None \<Rightarrow> None
        | Some wander_average \<Rightarrow>
            let jitter_median = median (env_median_alloc env)
                                  (map (ds_jitter_buff s1) [0..<RADAR_BUFF_MAX_LEN]);
                has_valid_threshold = (ds_wander_threshold s1 > 0.0001);
                counts = count_votes s1 wander_average jitter_median has_valid_threshold;
                someone_count = fst counts; move_count = snd counts;
                s2 = s1\<lparr>ds_room_status := (has_valid_threshold \<and> someone_count \<ge> 1)\<rparr>;
                s3 = s2\<lparr>ds_human_status :=
                          (ds_jitter_threshold s2 > 0.0001 \<and> move_count \<ge> buff_outliers_num)\<rparr>
            in
            if ds_calibrating s3
            then Some (s3, \<lparr>out_led = Some (False, False, True), out_report = None\<rparr>)
            else
              let led = Some (ds_room_status s3, ds_human_status s3, False);
                  now = env_now env
              in
              if now - s_last_send_time s3 \<ge> 100
              then Some (s3\<lparr>s_last_send_time := now\<rparr>,
                         \<lparr>out_led = led,
                          out_report = Some (send_result_to_master (env_timestamp env)
                                               wander_average jitter_median 0 s3)\<rparr>)
              else Some (s3, \<lparr>out_led = led, out_report = None\<rparr>))"

text \<open>
  The slave's \<^verbatim>\<open>espnow_recv_cb\<close>. \<open>data\<close> is the received payload and \<^verbatim>\<open>len\<close> its length.
  Two things come from outside the file and are parameters: \<open>f32\<close>, the \<^verbatim>\<open>float\<close> that
  \<^verbatim>\<open>memcpy\<close> makes of four payload bytes, and \<open>trained\<close>, the two thresholds that
  \<^verbatim>\<open>esp_radar_train_stop\<close> writes. The result is the new state and whether
  \<^verbatim>\<open>nvs_save_settings\<close> was called.
\<close>

definition espnow_recv_cb ::
  "(8 word list \<Rightarrow> real) \<Rightarrow> real \<times> real \<Rightarrow> 8 word list \<Rightarrow> slave_state \<Rightarrow> slave_state \<times> bool" where
  "espnow_recv_cb f32 trained data s =
     (let len = length data in
      if len < 1 then (s, False)
      else
        let cmd = data ! 0 in
        if cmd < 0x10 \<or> cmd > 0x1F then (s, False)
        else if cmd = 0x10 then (s\<lparr>ds_calibrating := True\<rparr>, False)
        else if cmd = 0x11 then
          (s\<lparr>ds_wander_threshold := fst trained,
             ds_jitter_threshold := snd trained,
             ds_calibrating := False\<rparr>, True)
        else if cmd = 0x12 then
          (if len \<ge> 9
           then (s\<lparr>ds_wander_threshold := f32 (take 4 (drop 1 data)),
                   ds_jitter_threshold := f32 (take 4 (drop 5 data))\<rparr>, False)
           else (s, False))
        else if cmd = 0x13 then
          (if len \<ge> 10
           then
             let target_node = data ! 1 in
             if target_node = g_node_id s
             then (s\<lparr>ds_wander_sensitivity := f32 (take 4 (drop 2 data)),
                     ds_jitter_sensitivity := f32 (take 4 (drop 6 data))\<rparr>, True)
             else (s, False)
           else (s, False))
        else (s, False))"

text \<open>
  The value of a finite IEEE 754 binary32 number stored least significant byte first, as
  the targets of this firmware lay out a \<^verbatim>\<open>float\<close>. It instantiates the parameter \<open>f32\<close> on
  concrete payloads; exponent 255 (infinity, NaN) has no counterpart in \<^typ>\<open>real\<close>.
\<close>

definition binary32_le :: "8 word list \<Rightarrow> real" where
  "binary32_le bs =
     (let n = unat (bs ! 0) + 256 * unat (bs ! 1) + 65536 * unat (bs ! 2)
                + 16777216 * unat (bs ! 3);
          sign = n div 2147483648;
          e = (n div 8388608) mod 256;
          m = n mod 8388608;
          magnitude =
            (if e = 0 then real m / 2 ^ 149
             else if e \<ge> 150 then real (8388608 + m) * 2 ^ (e - 150)
             else real (8388608 + m) / 2 ^ (150 - e))
      in if sign = 1 then - magnitude else magnitude)"

subsection \<open>Initial values of the globals\<close>

text \<open>The initialiser of the master's \<^verbatim>\<open>g_state\<close>; members it does not name are zero.\<close>

definition g_state_init :: master_state where
  "g_state_init =
     \<lparr>ms_wander_buff = (\<lambda>_. 0),
      ms_jitter_buff = (\<lambda>_. 0),
      ms_buff_count = 0,
      ms_wander_threshold = 0,
      ms_jitter_threshold = 0.0003,
      ms_links = (\<lambda>_. \<lparr>active = False, room_status = False, human_status = False,
                        wander = 0, jitter = 0, rssi = 0, last_update = 0,
                        wander_sensitivity = 0.15, jitter_sensitivity = 0.20\<rparr>),
      ms_room_status = False,
      ms_human_status = False,
      ms_calibrating = False,
      ms_calibration_start_time = 0,
      ms_calibration_duration_ms = 30000\<rparr>"

text \<open>
  The initialiser of the slave's \<^verbatim>\<open>g_detect\<close>, with \<^verbatim>\<open>s_last_send_time = 0\<close> and
  \<^verbatim>\<open>g_node_id = CONFIG_SLAVE_NODE_ID\<close>, which defaults to 2.
\<close>

definition g_detect_init :: slave_state where
  "g_detect_init =
     \<lparr>ds_wander_buff = (\<lambda>_. 0),
      ds_jitter_buff = (\<lambda>_. 0),
      ds_buff_count = 0,
      ds_wander_threshold = 0.01,
      ds_jitter_threshold = 0.001,
      ds_wander_sensitivity = 0.15,
      ds_jitter_sensitivity = 0.20,
      ds_room_status = False,
      ds_human_status = False,
      ds_calibrating = False,
      s_last_send_time = 0,
      g_node_id = 2\<rparr>"

subsection \<open>Notions used to state the properties\<close>

text \<open>
  A link is counted active in a fusion pass at time \<open>now\<close> when its flag is set and its
  last update is less than the timeout old; \<open>active_links\<close> lists the indices of those
  links, and \<open>quorum\<close> is the number of agreeing links a fused decision needs.
\<close>

definition counted_active :: "32 word \<Rightarrow> link_status \<Rightarrow> bool" where
  "counted_active now l = (active l \<and> now - last_update l < LINK_TIMEOUT_MS)"

definition active_links :: "32 word \<Rightarrow> master_state \<Rightarrow> nat list" where
  "active_links now s = filter (\<lambda>i. counted_active now (ms_links s i)) [0, 1, 2]"

definition quorum :: "nat \<Rightarrow> nat" where
  "quorum n = (if n \<ge> 2 then 2 else 1)"

text \<open>
  The closed forms of the two smoothing statistics, in the words of the specification: sort
  ascending, drop \<open>\<lfloor>W * percent / 2\<rfloor>\<close> samples from each end and average the rest; sort
  ascending and take the middle element, or the average of the two middle ones.
\<close>

definition spec_trimmed_mean :: "real list \<Rightarrow> real \<Rightarrow> real" where
  "spec_trimmed_mean window percent =
     (let ascending = sort window;
          k = nat \<lfloor>real (length window) * percent / 2\<rfloor>;
          rest = take (length window - 2 * k) (drop k ascending)
      in sum_list rest / real (length rest))"

definition spec_median :: "real list \<Rightarrow> real" where
  "spec_median window =
     (let ascending = sort window; n = length window
      in if even n then (ascending ! (n div 2 - 1) + ascending ! (n div 2)) / 2
         else ascending ! (n div 2))"

text \<open>
  The specification's motion vote of one raw jitter sample \<open>j\<close>, and its single-comparison
  presence rule.
\<close>

definition spec_motion_vote :: "real \<Rightarrow> real \<Rightarrow> real \<Rightarrow> real \<Rightarrow> bool" where
  "spec_motion_vote j_sens j_thr j_smoothed j =
     (j * j_sens > j_thr \<or> (j * j_sens > j_smoothed \<and> j > 0.0002))"

definition spec_room :: "real \<Rightarrow> real \<Rightarrow> real \<Rightarrow> bool" where
  "spec_room w_smoothed w_sens w_thr = (w_thr > 0.0001 \<and> w_smoothed * w_sens > w_thr)"

text \<open>
  What a slave callback shows to the outside: presence (motion) is reported when the LED is
  driven with the room (motion) argument set, or a report with a non-zero room (motion)
  byte is sent.
\<close>

definition reports_room :: "slave_output \<Rightarrow> bool" where
  "reports_room out =
     ((case out_led out of None \<Rightarrow> False | Some l \<Rightarrow> fst l) \<or>
      (case out_report out of None \<Rightarrow> False | Some r \<Rightarrow> rp_room_status r \<noteq> 0))"

definition reports_motion :: "slave_output \<Rightarrow> bool" where
  "reports_motion out =
     ((case out_led out of None \<Rightarrow> False | Some l \<Rightarrow> fst (snd l)) \<or>
      (case out_report out of None \<Rightarrow> False | Some r \<Rightarrow> rp_human_status r \<noteq> 0))"

text \<open>
  A run of the slave: the events are the two callbacks, each with what the environment
  decides during the call, in the order they are served; the result is \<open>None\<close> if a
  callback faults. \<open>radar_samples\<close> lists the radar samples among the events.
\<close>

datatype slave_event =
    RadarSample slave_env wifi_radar_info
  | EspNowPacket "real \<times> real" "8 word list"

fun feed_events ::
  "(8 word list \<Rightarrow> real) \<Rightarrow> slave_state \<Rightarrow> slave_event list \<Rightarrow> slave_state option" where
  "feed_events f32 s [] = Some s"
| "feed_events f32 s (RadarSample env info # rest) =
     (case wifi_radar_cb env info s of
        None \<Rightarrow> None
      | Some so \<Rightarrow> feed_events f32 (fst so) rest)"
| "feed_events f32 s (EspNowPacket trained data # rest) =
     feed_events f32 (fst (espnow_recv_cb f32 trained data s)) rest"

fun radar_samples :: "slave_event list \<Rightarrow> wifi_radar_info list" where
  "radar_samples [] = []"
| "radar_samples (RadarSample env info # rest) = info # radar_samples rest"
| "radar_samples (EspNowPacket trained data # rest) = radar_samples rest"

subsection \<open>Concrete inputs\<close>

definition link_fresh :: "bool \<Rightarrow> bool \<Rightarrow> real \<Rightarrow> real \<Rightarrow> 32 word \<Rightarrow> link_status" where
  "link_fresh r h w j t =
     \<lparr>active = True, room_status = r, human_status = h, wander = w, jitter = j, rssi = 0,
      last_update = t, wander_sensitivity = 0.15, jitter_sensitivity = 0.20\<rparr>"

text \<open>
  Scenario A of the specification at time 1000: links 0 and 1 see presence without motion,
  link 2 never reported. The thresholds are 0.01 and 0.0003.
\<close>

definition scenario_A :: master_state where
  "scenario_A =
     g_state_init\<lparr>ms_wander_threshold := 0.01,
       ms_links := (ms_links g_state_init)
          (0 := link_fresh False False 1 0 900, 1 := link_fresh True False 1 0 800)\<rparr>"

text \<open>Only the local link is active, with smoothed wander 1 and jitter 1.\<close>

definition moving_alone :: master_state where
  "moving_alone =
     g_state_init\<lparr>ms_wander_threshold := 0.01,
       ms_links := (ms_links g_state_init)(0 := link_fresh False False 1 1 900)\<rparr>"

text \<open>Link 1 reported presence and motion at time 0 and nothing since.\<close>

definition silent_slave :: master_state where
  "silent_slave =
     g_state_init\<lparr>ms_wander_threshold := 0.01,
       ms_links := (ms_links g_state_init)(1 := link_fresh True True 1 1 0)\<rparr>"

text \<open>
  The master with only its local link active, and both thresholds at 0.00005: positive, but
  below the slave's epsilon 0.0001.
\<close>

definition faint_master :: master_state where
  "faint_master = moving_alone\<lparr>ms_wander_threshold := 0.00005, ms_jitter_threshold := 0.00005\<rparr>"

text \<open>
  The master before any calibration (both thresholds 0), its local link active with both
  flags still set from earlier.
\<close>

definition uncalibrated_master :: master_state where
  "uncalibrated_master =
     g_state_init\<lparr>ms_jitter_threshold := 0,
       ms_links := (ms_links g_state_init)(0 := link_fresh True True 1 1 900)\<rparr>"

text \<open>The same master as \<open>moving_alone\<close> while a calibration runs.\<close>

definition calibrating_master :: master_state where
  "calibrating_master = moving_alone\<lparr>ms_calibrating := True\<rparr>"

text \<open>
  For the slave: the environment in which both allocations succeed and the clock reads
  \<open>t\<close>, that environment at time 1000, a radar sample with wander 1 and jitter 1, and the
  slave after 25 such samples with its default settings.
\<close>

definition env_at :: "32 word \<Rightarrow> slave_env" where
  "env_at t = \<lparr>env_trimmean_alloc = True, env_median_alloc = True, env_now = t,
               env_timestamp = t\<rparr>"

definition env_ok :: slave_env where
  "env_ok = env_at 1000"

definition sample_one :: wifi_radar_info where
  "sample_one = \<lparr>waveform_wander = 1, waveform_jitter = 1\<rparr>"

definition warm_slave :: slave_state where
  "warm_slave =
     g_detect_init\<lparr>ds_wander_buff := (\<lambda>_. 1), ds_jitter_buff := (\<lambda>_. 1), ds_buff_count := 25\<rparr>"

text \<open>The same slave with both thresholds at 0.00005, and while it calibrates.\<close>

definition faint_slave :: slave_state where
  "faint_slave = warm_slave\<lparr>ds_wander_threshold := 0.00005, ds_jitter_threshold := 0.00005\<rparr>"

definition calibrating_slave :: slave_state where
  "calibrating_slave = warm_slave\<lparr>ds_calibrating := True\<rparr>"

text \<open>
  Six radar samples 100 ms apart whose jitter is 1, 1, 0, 0, 0.01, 0 (wander 0), with a
  SetSensitivity command for another node in between; they are followed below by a seventh
  sample with jitter 0.01. \<open>six_samples\<close> is a run of radar samples only, with wander 1
  and jitter 1.
\<close>

definition jitter_sample :: "real \<Rightarrow> wifi_radar_info" where
  "jitter_sample j = \<lparr>waveform_wander = 0, waveform_jitter = j\<rparr>"

definition burst :: "slave_event list" where
  "burst =
     [RadarSample (env_at 100) (jitter_sample 1), RadarSample (env_at 200) (jitter_sample 1),
      RadarSample (env_at 300) (jitter_sample 0),
      EspNowPacket (0, 0) [0x13, 1, 0, 0, 0, 0, 0, 0, 0, 0],
      RadarSample (env_at 400) (jitter_sample 0),
      RadarSample (env_at 500) (jitter_sample 0.01), RadarSample (env_at 600) (jitter_sample 0)]"

definition six_samples :: "(slave_env \<times> wifi_radar_info) list" where
  "six_samples = map (\<lambda>t. (env_at t, sample_one)) [100, 200, 300, 400, 500, 600]"

text \<open>
  A sensitivity request for link 1 with both values out of range, and a SetSensitivity
  payload for node 2 whose two floats are \<^verbatim>\<open>0x41200000\<close>, that is 10.0.
\<close>

definition wild_request :: sensitivity_request where
  "wild_request = \<lparr>req_link = Some 1, req_wander_sens = Some 7.5, req_jitter_sens = Some 0.0001\<rparr>"

definition wild_payload :: "8 word list" where
  "wild_payload = [0x13, 2, 0x00, 0x00, 0x20, 0x41, 0x00, 0x00, 0x20, 0x41]"

section \<open>Properties of the master's fusion pass\<close>

subsection \<open>One iteration of the link loop\<close>

lemma recalc_other: "j \<noteq> i \<Longrightarrow> ms_links (recalculate_link_status i s) j = ms_links s j"
  by (simp add: recalculate_link_status_def Let_def)

lemma recalc_counted:
  "counted_active now (ms_links (recalculate_link_status i s) j) = counted_active now (ms_links s j)"
  by (cases "j = i") (simp_all add: recalculate_link_status_def Let_def counted_active_def)

lemma fuse_link_other: "j \<noteq> i \<Longrightarrow> ms_links (fst (fuse_link now i sc)) j = ms_links (fst sc) j"
  by (simp add: fuse_link_def Let_def recalc_other)

lemma fuse_link_active_count:
  "active_count (snd (fuse_link now i sc)) =
     active_count (snd sc) + (if counted_active now (ms_links (fst sc) i) then 1 else 0)"
  by (simp add: fuse_link_def Let_def counted_active_def)

lemma fuse_link_detection_count:
  "detection_count (snd (fuse_link now i sc)) =
     detection_count (snd sc) +
       (if counted_active now (ms_links (fst sc) i) \<and>
           (room_status (ms_links (fst (fuse_link now i sc)) i) \<or>
            human_status (ms_links (fst (fuse_link now i sc)) i)) then 1 else 0)"
  by (auto simp: fuse_link_def Let_def counted_active_def)

lemma fuse_link_motion_count:
  "motion_count (snd (fuse_link now i sc)) =
     motion_count (snd sc) +
       (if counted_active now (ms_links (fst sc) i) \<and>
           human_status (ms_links (fst (fuse_link now i sc)) i) then 1 else 0)"
  by (auto simp: fuse_link_def Let_def counted_active_def)

lemma fold_fuse_link_other:
  "j \<notin> set js \<Longrightarrow> ms_links (fst (fold (fuse_link now) js sc)) j = ms_links (fst sc) j"
  by (induction js arbitrary: sc) (simp_all add: fuse_link_other)


lemma fuse_link_counted:
  "j \<noteq> i \<Longrightarrow> counted_active now (ms_links (fst (fuse_link now i sc)) j) = counted_active now (ms_links (fst sc) j)"
  by (simp add: fuse_link_other)

lemma fold_active_count:
  "distinct js \<Longrightarrow>
   active_count (snd (fold (fuse_link now) js sc)) =
     active_count (snd sc) + int (length (filter (\<lambda>i. counted_active now (ms_links (fst sc) i)) js))"
proof (induction js arbitrary: sc)
  case Nil
  then show ?case by simp
next
  case (Cons i js)
  have same: "filter (\<lambda>j. counted_active now (ms_links (fst (fuse_link now i sc)) j)) js =
              filter (\<lambda>j. counted_active now (ms_links (fst sc) j)) js"
  proof (rule filter_cong [OF refl])
    fix j assume "j \<in> set js"
    with Cons.prems have "j \<noteq> i" by auto
    then show "counted_active now (ms_links (fst (fuse_link now i sc)) j) =
               counted_active now (ms_links (fst sc) j)"
      by (simp add: fuse_link_other)
  qed
  show ?case
    using Cons.prems by (simp add: Cons.IH same fuse_link_active_count)
qed

lemma fold_detection_count:
  "distinct js \<Longrightarrow>
   detection_count (snd (fold (fuse_link now) js sc)) =
     detection_count (snd sc) +
       int (length (filter (\<lambda>i. room_status (ms_links (fst (fold (fuse_link now) js sc)) i) \<or>
                                human_status (ms_links (fst (fold (fuse_link now) js sc)) i))
              (filter (\<lambda>i. counted_active now (ms_links (fst sc) i)) js)))"
proof (induction js arbitrary: sc)
  case Nil
  then show ?case by simp
next
  case (Cons i js)
  have same: "filter (\<lambda>j. counted_active now (ms_links (fst (fuse_link now i sc)) j)) js =
              filter (\<lambda>j. counted_active now (ms_links (fst sc) j)) js"
  proof (rule filter_cong [OF refl])
    fix j assume "j \<in> set js"
    with Cons.prems have "j \<noteq> i" by auto
    then show "counted_active now (ms_links (fst (fuse_link now i sc)) j) =
               counted_active now (ms_links (fst sc) j)"
      by (simp add: fuse_link_other)
  qed
  have final: "ms_links (fst (fold (fuse_link now) js (fuse_link now i sc))) i =
               ms_links (fst (fuse_link now i sc)) i"
    using Cons.prems by (simp add: fold_fuse_link_other)
  show ?case
    using Cons.prems by (simp add: Cons.IH same final fuse_link_detection_count)
qed

lemma fold_motion_count:
  "distinct js \<Longrightarrow>
   motion_count (snd (fold (fuse_link now) js sc)) =
     motion_count (snd sc) +
       int (length (filter (\<lambda>i. human_status (ms_links (fst (fold (fuse_link now) js sc)) i))
              (filter (\<lambda>i. counted_active now (ms_links (fst sc) i)) js)))"
proof (induction js arbitrary: sc)
  case Nil
  then show ?case by simp
next
  case (Cons i js)
  have same: "filter (\<lambda>j. counted_active now (ms_links (fst (fuse_link now i sc)) j)) js =
              filter (\<lambda>j. counted_active now (ms_links (fst sc) j)) js"
  proof (rule filter_cong [OF refl])
    fix j assume "j \<in> set js"
    with Cons.prems have "j \<noteq> i" by auto
    then show "counted_active now (ms_links (fst (fuse_link now i sc)) j) =
               counted_active now (ms_links (fst sc) j)"
      by (simp add: fuse_link_other)
  qed
  have final: "ms_links (fst (fold (fuse_link now) js (fuse_link now i sc))) i =
               ms_links (fst (fuse_link now i sc)) i"
    using Cons.prems by (simp add: fold_fuse_link_other)
  show ?case
    using Cons.prems by (simp add: Cons.IH same final fuse_link_motion_count)
qed

lemma fuse_loop_counts:
  "active_count (snd (fuse_loop now s)) = int (length (active_links now s))"
  "detection_count (snd (fuse_loop now s)) =
     int (length (filter (\<lambda>i. room_status (ms_links (fst (fuse_loop now s)) i) \<or>
                              human_status (ms_links (fst (fuse_loop now s)) i)) (active_links now s)))"
  "motion_count (snd (fuse_loop now s)) =
     int (length (filter (\<lambda>i. human_status (ms_links (fst (fuse_loop now s)) i)) (active_links now s)))"
  unfolding fuse_loop_def active_links_def
  using fold_active_count [of "[0, 1, 2]" now "(s, \<lparr>detection_count = 0, motion_count = 0, active_count = 0\<rparr>)"]
        fold_detection_count [of "[0, 1, 2]" now "(s, \<lparr>detection_count = 0, motion_count = 0, active_count = 0\<rparr>)"]
        fold_motion_count [of "[0, 1, 2]" now "(s, \<lparr>detection_count = 0, motion_count = 0, active_count = 0\<rparr>)"]
  by simp_all

lemma fuse_links: "ms_links (fuse_detection_results now s) = ms_links (fst (fuse_loop now s))"
  by (simp add: fuse_detection_results_def Let_def)

lemma fuse_link_self_active:
  "active (ms_links (fst (fuse_link now i sc)) i) = counted_active now (ms_links (fst sc) i)"
  by (auto simp: fuse_link_def Let_def counted_active_def recalculate_link_status_def)

lemma fold_fuse_link_active:
  "distinct js \<Longrightarrow> i \<in> set js \<Longrightarrow>
   active (ms_links (fst (fold (fuse_link now) js sc)) i) =
     counted_active now (ms_links (fst sc) i)"
proof (induction js arbitrary: sc)
  case Nil
  then show ?case by simp
next
  case (Cons j js)
  show ?case
  proof (cases "j = i")
    case True
    then have "i \<notin> set js" using Cons.prems by simp
    then show ?thesis using True
      by (simp add: fold_fuse_link_other fuse_link_self_active)
  next
    case False
    then have "i \<in> set js" "distinct js" using Cons.prems by auto
    then show ?thesis using False
      by (simp add: Cons.IH fuse_link_other)
  qed
qed

lemma fuse_loop_active:
  "i < 3 \<Longrightarrow>
   active (ms_links (fst (fuse_loop now s)) i) = counted_active now (ms_links s i)"
proof -
  assume "i < 3"
  then have "i \<in> set [0, 1, 2 :: nat]" by auto
  then show ?thesis
    unfolding fuse_loop_def
    using fold_fuse_link_active [of "[0, 1, 2]" i now] by simp
qed

text \<open>
  The pass trusts what the slaves reported: the flags of links 1 and 2 are never changed,
  and those of link 0 only by the re-classification.
\<close>

lemma fuse_link_keeps_remote_flags:
  "i \<noteq> 0 \<Longrightarrow>
   room_status (ms_links (fst (fuse_link now j sc)) i) = room_status (ms_links (fst sc) i) \<and>
   human_status (ms_links (fst (fuse_link now j sc)) i) = human_status (ms_links (fst sc) i)"
  by (cases "j = i") (auto simp: fuse_link_def Let_def recalc_other)

lemma fold_fuse_link_keeps_remote_flags:
  "i \<noteq> 0 \<Longrightarrow>
   room_status (ms_links (fst (fold (fuse_link now) js sc)) i) =
     room_status (ms_links (fst sc) i) \<and>
   human_status (ms_links (fst (fold (fuse_link now) js sc)) i) =
     human_status (ms_links (fst sc) i)"
  by (induction js arbitrary: sc) (simp_all add: fuse_link_keeps_remote_flags)

lemma fuse_remote_flags:
  "i \<noteq> 0 \<Longrightarrow>
   room_status (ms_links (fuse_detection_results now s) i) = room_status (ms_links s i) \<and>
   human_status (ms_links (fuse_detection_results now s) i) = human_status (ms_links s i)"
  unfolding fuse_links fuse_loop_def
  using fold_fuse_link_keeps_remote_flags [of i now "[0, 1, 2]"] by simp

lemma fuse_local_flags:
  "counted_active now (ms_links s 0) \<Longrightarrow>
   ms_links (fuse_detection_results now s) 0 = ms_links (recalculate_link_status 0 s) 0"
proof -
  assume a: "counted_active now (ms_links s 0)"
  have "ms_links (fuse_detection_results now s) 0 =
        ms_links (fst (fold (fuse_link now) [1, 2]
          (fuse_link now 0 (s, \<lparr>detection_count = 0, motion_count = 0, active_count = 0\<rparr>)))) 0"
    unfolding fuse_links fuse_loop_def by simp
  also have "\<dots> = ms_links (fst (fuse_link now 0
          (s, \<lparr>detection_count = 0, motion_count = 0, active_count = 0\<rparr>))) 0"
    by (rule fold_fuse_link_other) simp
  also have "\<dots> = ms_links (recalculate_link_status 0 s) 0"
    using a by (simp add: fuse_link_def Let_def counted_active_def)
  finally show ?thesis .
qed

lemma filter_removeAll_unsat: "\<not> P i \<Longrightarrow> filter P (removeAll i xs) = filter P xs"
  by (induction xs) auto

lemmas master_eval = fuse_detection_results_def fuse_loop_def fuse_link_def
  recalculate_link_status_def LINK_TIMEOUT_MS_def Let_def g_state_init_def link_fresh_def

subsection \<open>Quorum voting\<close>

text \<open>
  C1. In every fusion pass the fused room status is \<open>detection_count \<ge> quorum\<close> and the
  fused motion status is \<open>fused room \<and> motion_count \<ge> quorum\<close>, where the counts range over
  the links counted active at the evaluation time \<open>now\<close>: the detection count is the number
  of those links whose room or motion flag is set, the motion count the number whose
  motion flag is set (flags as the pass leaves them, link 0 re-classified), and the quorum
  is 2 with two or more active links and 1 otherwise.
\<close>

theorem fuse_quorum_vote:
  "ms_room_status (fuse_detection_results now s) =
     (quorum (length (active_links now s)) \<le>
      length (filter (\<lambda>i. room_status (ms_links (fuse_detection_results now s) i) \<or>
                           human_status (ms_links (fuse_detection_results now s) i))
                (active_links now s))) \<and>
   ms_human_status (fuse_detection_results now s) =
     (ms_room_status (fuse_detection_results now s) \<and>
      quorum (length (active_links now s)) \<le>
      length (filter (\<lambda>i. human_status (ms_links (fuse_detection_results now s) i))
                (active_links now s)))"
  unfolding fuse_links
  by (simp add: fuse_detection_results_def Let_def fuse_loop_counts quorum_def)

text \<open>Scenario A: two active links that both see presence and no motion.\<close>

theorem fuse_quorum_vote_witness:
  "length (active_links 1000 scenario_A) = 2 \<and>
   ms_room_status (fuse_detection_results 1000 scenario_A) \<and>
   \<not> ms_human_status (fuse_detection_results 1000 scenario_A)"
proof -
  have a: "active_links 1000 scenario_A = [0, 1]"
    by (simp add: active_links_def counted_active_def scenario_A_def master_eval)
  have f0: "room_status (ms_links (fuse_detection_results 1000 scenario_A) 0)"
    "\<not> human_status (ms_links (fuse_detection_results 1000 scenario_A) 0)"
    by (simp_all add: scenario_A_def master_eval)
  have f1: "room_status (ms_links (fuse_detection_results 1000 scenario_A) (Suc 0))"
    "\<not> human_status (ms_links (fuse_detection_results 1000 scenario_A) (Suc 0))"
    by (simp_all add: scenario_A_def master_eval)
  show ?thesis
    using fuse_quorum_vote [of 1000 scenario_A]
    unfolding a by (simp add: quorum_def f0 f1)
qed

text \<open>
  C2. After every fusion pass, whatever the link states, thresholds and sensitivities, the
  published state satisfies: fused motion implies fused room.
\<close>

theorem fuse_motion_implies_room:
  "ms_human_status (fuse_detection_results now s) \<longrightarrow>
   ms_room_status (fuse_detection_results now s)"
  by (simp add: fuse_detection_results_def Let_def)

theorem fuse_motion_implies_room_witness:
  "ms_human_status (fuse_detection_results 1000 moving_alone) \<and>
   ms_room_status (fuse_detection_results 1000 moving_alone)"
proof -
  have h: "ms_human_status (fuse_detection_results 1000 moving_alone)"
    by (simp add: moving_alone_def master_eval)
  with fuse_motion_implies_room [of 1000 moving_alone] show ?thesis by blast
qed

subsection \<open>Liveness by timeout\<close>

text \<open>
  C3. A link whose last update lies 3000 ms or more before the evaluation time (the
  difference of the two 32-bit millisecond clocks, as the code takes it) is marked inactive
  by the pass, is not among the links counted active, and the three counters of the pass
  are the counts over the other two links alone, whatever its stored flags are.
\<close>

theorem stale_link_excluded:
  assumes "i < 3" and "LINK_TIMEOUT_MS \<le> now - last_update (ms_links s i)"
  shows "\<not> active (ms_links (fuse_detection_results now s) i) \<and>
         i \<notin> set (active_links now s) \<and>
         active_count (snd (fuse_loop now s)) =
           int (length (filter (\<lambda>j. counted_active now (ms_links s j))
                  (removeAll i [0, 1, 2]))) \<and>
         detection_count (snd (fuse_loop now s)) =
           int (length (filter (\<lambda>j. room_status (ms_links (fst (fuse_loop now s)) j) \<or>
                                    human_status (ms_links (fst (fuse_loop now s)) j))
                  (filter (\<lambda>j. counted_active now (ms_links s j))
                     (removeAll i [0, 1, 2])))) \<and>
         motion_count (snd (fuse_loop now s)) =
           int (length (filter (\<lambda>j. human_status (ms_links (fst (fuse_loop now s)) j))
                  (filter (\<lambda>j. counted_active now (ms_links s j))
                     (removeAll i [0, 1, 2]))))"
proof -
  have stale: "\<not> counted_active now (ms_links s i)"
    using assms(2) by (simp add: counted_active_def not_less)
  have others: "filter (\<lambda>j. counted_active now (ms_links s j)) (removeAll i [0, 1, 2]) =
                active_links now s"
    unfolding active_links_def using stale by (rule filter_removeAll_unsat)
  have "\<not> active (ms_links (fuse_detection_results now s) i)"
    unfolding fuse_links using assms(1) stale by (simp add: fuse_loop_active)
  moreover have "i \<notin> set (active_links now s)"
    unfolding active_links_def set_filter using stale by blast
  ultimately show ?thesis
    unfolding others by (simp add: fuse_loop_counts)
qed

theorem stale_link_excluded_witness:
  "(1::nat) < 3 \<and> LINK_TIMEOUT_MS \<le> 3000 - last_update (ms_links silent_slave 1) \<and>
   room_status (ms_links silent_slave 1) \<and> human_status (ms_links silent_slave 1) \<and>
   \<not> active (ms_links (fuse_detection_results 3000 silent_slave) 1) \<and>
   active_count (snd (fuse_loop 3000 silent_slave)) = 0"
proof -
  have h1: "(1::nat) < 3" by simp
  have h2: "LINK_TIMEOUT_MS \<le> 3000 - last_update (ms_links silent_slave 1)"
    by (simp add: silent_slave_def master_eval)
  have flags: "room_status (ms_links silent_slave 1) \<and> human_status (ms_links silent_slave 1)"
    by (simp add: silent_slave_def master_eval)
  have rest: "filter (\<lambda>j. counted_active 3000 (ms_links silent_slave j)) (removeAll 1 [0, 1, 2]) = []"
    by (simp add: silent_slave_def master_eval counted_active_def)
  show ?thesis
    using stale_link_excluded [OF h1 h2] h1 h2 flags unfolding rest by simp
qed

section \<open>Properties of the smoothing functions\<close>

subsection \<open>The nested loops sort the buffer\<close>

text \<open>
  One inner pass over the first \<open>k + 1\<close> elements leaves the rest of the buffer alone,
  permutes those elements and moves their maximum to position \<open>k\<close>. After \<open>i\<close> outer
  iterations the last \<open>i\<close> elements are sorted and bound the others from above.
\<close>

lemma length_swap_if_greater [simp]: "length (swap_if_greater j u) = length u"
  by (simp add: swap_if_greater_def Let_def)

lemma mset_swap_if_greater: "j + 1 < length u \<Longrightarrow> mset (swap_if_greater j u) = mset u"
  by (simp add: swap_if_greater_def Let_def mset_swap)

lemma swap_if_greater_append:
  "j + 1 < length u \<Longrightarrow> swap_if_greater j (u @ v) = swap_if_greater j u @ v"
  by (simp add: swap_if_greater_def Let_def nth_append list_update_append)

lemma length_bubble_pass [simp]: "length (fold swap_if_greater [0..<k] u) = length u"
  by (induction k) simp_all

lemma bubble_pass_append:
  "k < length u \<Longrightarrow>
   fold swap_if_greater [0..<k] (u @ v) = fold swap_if_greater [0..<k] u @ v"
  by (induction k) (simp_all add: swap_if_greater_append)

lemma mset_bubble_pass:
  "k < length u \<Longrightarrow> mset (fold swap_if_greater [0..<k] u) = mset u"
  by (induction k) (simp_all add: mset_swap_if_greater)

lemma bubble_pass_max:
  "k < length u \<Longrightarrow> p \<le> k \<Longrightarrow>
   fold swap_if_greater [0..<k] u ! p \<le> fold swap_if_greater [0..<k] u ! k"
proof (induction k arbitrary: p)
  case 0
  then show ?case by simp
next
  case (Suc k)
  let ?r = "fold swap_if_greater [0..<k] u"
  have len: "Suc k < length ?r" using Suc.prems by simp
  have step: "fold swap_if_greater [0..<Suc k] u = swap_if_greater k ?r" by simp
  show ?case
  proof (cases "p < k")
    case True
    then have "?r ! p \<le> ?r ! k" using Suc.IH [of p] Suc.prems by simp
    then show ?thesis using True len
      unfolding step by (auto simp: swap_if_greater_def Let_def)
  next
    case False
    then have "p = k \<or> p = Suc k" using Suc.prems by arith
    then show ?thesis using len
      unfolding step by (auto simp: swap_if_greater_def Let_def nth_list_update)
  qed
qed

lemma bubble_outer_step:
  assumes len: "length s = n" and i2: "i + 2 \<le> n"
    and srt: "sorted (drop (n - i) s)"
    and low: "\<forall>x \<in> set (take (n - i) s). \<forall>y \<in> set (drop (n - i) s). x \<le> y"
  shows "length (fold swap_if_greater [0..<n - i - 1] s) = n \<and>
         mset (fold swap_if_greater [0..<n - i - 1] s) = mset s \<and>
         sorted (drop (n - Suc i) (fold swap_if_greater [0..<n - i - 1] s)) \<and>
         (\<forall>x \<in> set (take (n - Suc i) (fold swap_if_greater [0..<n - i - 1] s)).
          \<forall>y \<in> set (drop (n - Suc i) (fold swap_if_greater [0..<n - i - 1] s)). x \<le> y)"
proof -
  define u where "u = take (n - i) s"
  define v where "v = drop (n - i) s"
  define k where "k = n - i - 1"
  define r where "r = fold swap_if_greater [0..<k] u"
  have s_split: "s = u @ v" by (simp add: u_def v_def)
  have lu: "length u = Suc k" using len i2 by (simp add: u_def k_def)
  then have k: "k < length u" by simp
  have lr: "length r = Suc k" using lu by (simp add: r_def)
  have nk: "n - Suc i = k" by (simp add: k_def)
  have pass: "fold swap_if_greater [0..<k] s = r @ v"
    unfolding s_split r_def using k by (rule bubble_pass_append)
  have mr: "mset r = mset u" unfolding r_def using k by (rule mset_bubble_pass)
  then have sr: "set r = set u" by (rule mset_eq_setD)
  have top_in: "r ! k \<in> set u"
  proof -
    have "r ! k \<in> set r" using lr by (intro nth_mem) simp
    then show ?thesis using sr by simp
  qed
  have tk: "take k (r @ v) = take k r" using lr by simp
  have dk: "drop k (r @ v) = r ! k # v"
  proof -
    have "r ! k # drop (Suc k) r = drop k r"
      using lr by (intro Cons_nth_drop_Suc) simp
    then have "drop k r = [r ! k]" using lr by simp
    then show ?thesis using lr by simp
  qed
  have below_top: "\<forall>x \<in> set (take k r). x \<le> r ! k"
  proof
    fix x assume "x \<in> set (take k r)"
    then obtain p where p: "p < k" "x = r ! p"
      using lr by (auto simp: in_set_conv_nth)
    then show "x \<le> r ! k" using bubble_pass_max [OF k, of p] by (simp add: r_def)
  qed
  have lower_in: "set (take k r) \<subseteq> set u"
    using sr set_take_subset [of k r] by simp
  have low': "\<forall>x \<in> set u. \<forall>y \<in> set v. x \<le> y" using low by (simp add: u_def v_def)
  have srt': "sorted v" using srt by (simp add: v_def)
  have c1: "length (r @ v) = n" using lr lu len s_split by simp
  have c2: "mset (r @ v) = mset s" using mr s_split by simp
  have c3: "sorted (r ! k # v)" using srt' low' top_in by simp
  have c4: "\<forall>x \<in> set (take k r). \<forall>y \<in> set (r ! k # v). x \<le> y"
    using below_top lower_in low' by auto
  have "length (r @ v) = n \<and> mset (r @ v) = mset s \<and> sorted (drop k (r @ v)) \<and>
        (\<forall>x \<in> set (take k (r @ v)). \<forall>y \<in> set (drop k (r @ v)). x \<le> y)"
    unfolding tk dk using c1 c2 c3 c4 by blast
  then show ?thesis unfolding nk unfolding k_def [symmetric] pass .
qed

lemma bubble_outer_inv:
  "i \<le> length xs - 1 \<Longrightarrow>
   length (fold (\<lambda>i s. fold swap_if_greater [0..<length xs - i - 1] s) [0..<i] xs) = length xs \<and>
   mset (fold (\<lambda>i s. fold swap_if_greater [0..<length xs - i - 1] s) [0..<i] xs) = mset xs \<and>
   sorted (drop (length xs - i)
     (fold (\<lambda>i s. fold swap_if_greater [0..<length xs - i - 1] s) [0..<i] xs)) \<and>
   (\<forall>x \<in> set (take (length xs - i)
       (fold (\<lambda>i s. fold swap_if_greater [0..<length xs - i - 1] s) [0..<i] xs)).
    \<forall>y \<in> set (drop (length xs - i)
       (fold (\<lambda>i s. fold swap_if_greater [0..<length xs - i - 1] s) [0..<i] xs)). x \<le> y)"
proof (induction i)
  case 0
  then show ?case by simp
next
  case (Suc i)
  define s where "s = fold (\<lambda>i s. fold swap_if_greater [0..<length xs - i - 1] s) [0..<i] xs"
  have next_s: "fold (\<lambda>i s. fold swap_if_greater [0..<length xs - i - 1] s) [0..<Suc i] xs =
                fold swap_if_greater [0..<length xs - i - 1] s"
    by (simp add: s_def)
  from Suc.prems have "i \<le> length xs - 1" by arith
  from Suc.IH [OF this] have IH: "length s = length xs" "mset s = mset xs"
    "sorted (drop (length xs - i) s)"
    "\<forall>x \<in> set (take (length xs - i) s). \<forall>y \<in> set (drop (length xs - i) s). x \<le> y"
    unfolding s_def by blast+
  from Suc.prems have i2: "i + 2 \<le> length xs" by arith
  show ?case
    unfolding next_s using bubble_outer_step [OF IH(1) i2 IH(3) IH(4)] IH(2) by simp
qed

lemma bubble_sort_sort: "bubble_sort xs = sort xs"
proof (cases xs)
  case Nil
  then show ?thesis by (simp add: bubble_sort_def)
next
  case (Cons a as)
  define s where "s = bubble_sort xs"
  have one: "length xs - (length xs - 1) = 1" using Cons by simp
  have inv: "length s = length xs \<and> mset s = mset xs \<and> sorted (drop 1 s) \<and>
        (\<forall>x \<in> set (take 1 s). \<forall>y \<in> set (drop 1 s). x \<le> y)"
    using bubble_outer_inv [of "length xs - 1" xs]
    unfolding one s_def bubble_sort_def by simp
  obtain b bs where s: "s = b # bs"
    using inv Cons by (cases s) auto
  have "sorted s" using inv unfolding s by simp
  moreover have "mset s = mset xs" using inv by simp
  ultimately have "sort xs = s" by (rule properties_for_sort [rotated])
  then show ?thesis by (simp add: s_def)
qed


lemma length_bubble_sort [simp]: "length (bubble_sort xs) = length xs"
  by (simp add: bubble_sort_sort)

lemma fold_sum_count:
  "fold (\<lambda>i (sum, count). (sum + f i, count + 1)) js (a, c) =
     (a + sum_list (map f js), c + length js)"
  by (induction js arbitrary: a c) (simp_all add: add.assoc)

lemma map_nth_upt: "b \<le> length xs \<Longrightarrow> map ((!) xs) [a..<b] = take (b - a) (drop a xs)"
  by (rule nth_equalityI) auto

lemma trim_bound:
  fixes percent :: real
  assumes "0 \<le> percent" "percent < 1" "0 < n"
  shows "2 * nat \<lfloor>real n * percent / 2\<rfloor> < n"
proof -
  have "real n * percent / 2 < real n / 2" using assms by simp
  moreover have "real_of_int \<lfloor>real n * percent / 2\<rfloor> \<le> real n * percent / 2"
    by (rule of_int_floor_le)
  moreover have "0 \<le> \<lfloor>real n * percent / 2\<rfloor>" using assms by simp
  ultimately have "2 * real (nat \<lfloor>real n * percent / 2\<rfloor>) < real n" by simp
  then show ?thesis by (metis of_nat_less_iff of_nat_mult of_nat_numeral)
qed

lemma trimmean_closed_form:
  assumes "window \<noteq> []" "0 \<le> percent" "percent < 1"
  shows "trimmean True window percent = Some (spec_trimmed_mean window percent)"
proof -
  define k where "k = nat \<lfloor>real (length window) * percent / 2\<rfloor>"
  define kept where "kept = take (length window - 2 * k) (drop k (sort window))"
  have n0: "0 < length window" using assms(1) by simp
  have k2: "2 * k < length window" unfolding k_def using assms(2,3) n0 by (rule trim_bound)
  have "0 \<le> real (length window) * percent" using assms(2) by simp
  then have v: "\<not> real (length window) * percent / 2 \<le> - 1" by simp
  have rest: "map ((!) (sort window)) [k..<length window - k] = kept"
  proof -
    have "length window - k - k = length window - 2 * k" by simp
    then show ?thesis
      using map_nth_upt [of "length window - k" "sort window" k] by (simp add: kept_def)
  qed
  have lkept: "length kept = length window - 2 * k"
    using k2 by (simp add: kept_def)
  have code: "trimmean True window percent = Some (sum_list kept / real (length window - 2 * k))"
    using n0 v k2
    unfolding trimmean_def Let_def bubble_sort_sort k_def [symmetric] fold_sum_count rest
    by simp
  have spec: "spec_trimmed_mean window percent = sum_list kept / real (length kept)"
    unfolding spec_trimmed_mean_def Let_def k_def [symmetric] kept_def [symmetric] ..
  show ?thesis unfolding code spec lkept ..
qed

lemma median_closed_form: "window \<noteq> [] \<Longrightarrow> median True window = spec_median window"
  by (simp add: median_def spec_median_def Let_def bubble_sort_sort even_iff_mod_2_eq_zero)


subsection \<open>Closed forms\<close>

text \<open>
  C8. For every window of five or more samples, \<^verbatim>\<open>trimmean\<close> (with the scratch buffer
  allocated and a trim fraction in \<open>[0, 1)\<close>) is the closed form "sort ascending, drop
  \<open>\<lfloor>len * percent / 2\<rfloor>\<close> elements from each end, average the rest", and \<^verbatim>\<open>median\<close> is "sort
  ascending, take the middle element, or the average of the two middle ones"; on the window
  \<open>[1, 2, 3, 4, 5]\<close> with 50% trim the trimmed mean is 3 and the median is 3.
\<close>

theorem smoothing_closed_forms:
  assumes "5 \<le> length window" and "0 \<le> percent" and "percent < 1"
  shows "trimmean True window percent = Some (spec_trimmed_mean window percent) \<and>
         median True window = spec_median window \<and>
         trimmean True [1, 2, 3, 4, 5] 0.5 = Some 3 \<and>
         median True [1, 2, 3, 4, 5] = 3"
proof -
  have ne: "window \<noteq> []" using assms(1) by auto
  have t: "trimmean True window percent = Some (spec_trimmed_mean window percent)"
    using ne assms(2,3) by (rule trimmean_closed_form)
  have m: "median True window = spec_median window"
    using ne by (rule median_closed_form)
  have ft: "trimmean True [1, 2, 3, 4, 5] 0.5 = Some 3" by code_simp
  have fm: "median True [1, 2, 3, 4, 5] = 3" by code_simp
  show ?thesis using t m ft fm by blast
qed

theorem smoothing_closed_forms_witness:
  "5 \<le> length [5, 3, 1, 4, 2 :: real] \<and> (0::real) \<le> 0.5 \<and> (0.5::real) < 1 \<and>
   spec_trimmed_mean [5, 3, 1, 4, 2] 0.5 = 3 \<and> spec_median [5, 3, 1, 4, 2] = 3 \<and>
   trimmean True [5, 3, 1, 4, 2] 0.5 = Some 3 \<and> median True [5, 3, 1, 4, 2] = 3"
proof -
  have h1: "5 \<le> length [5, 3, 1, 4, 2 :: real]" by simp
  have h2: "(0::real) \<le> 0.5" by simp
  have h3: "(0.5::real) < 1" by simp
  have s1: "spec_trimmed_mean [5, 3, 1, 4, 2] 0.5 = 3" by code_simp
  have s2: "spec_median [5, 3, 1, 4, 2] = 3" by code_simp
  show ?thesis
    using smoothing_closed_forms [OF h1 h2 h3] h1 h2 h3 s1 s2 by simp
qed

section \<open>Properties of the slave's classifier\<close>

subsection \<open>The radar callback\<close>

text \<open>
  The callback always returns: with a window of 25 samples and a trim of 50% the trimmed
  mean drops 6 samples from each end and reads inside the buffer.
\<close>

lemma trimmean_None_iff:
  "trimmean a xs p = None \<longleftrightarrow>
     xs \<noteq> [] \<and> a \<and>
     (real (length xs) * p / 2 \<le> - 1 \<or> length xs < nat \<lfloor>real (length xs) * p / 2\<rfloor>)"
  by (simp add: trimmean_def Let_def)

lemma trimmean_window_total:
  "length xs = 25 \<Longrightarrow> \<exists>w. trimmean a xs 0.5 = Some w"
proof -
  assume "length xs = 25"
  then have "trimmean a xs 0.5 \<noteq> None"
    unfolding trimmean_None_iff by simp
  then show ?thesis by blast
qed

lemma store_sample_simps [simp]:
  "ds_buff_count (store_sample info s) = ds_buff_count s + 1"
  "ds_wander_threshold (store_sample info s) = ds_wander_threshold s"
  "ds_jitter_threshold (store_sample info s) = ds_jitter_threshold s"
  "ds_wander_sensitivity (store_sample info s) = ds_wander_sensitivity s"
  "ds_jitter_sensitivity (store_sample info s) = ds_jitter_sensitivity s"
  "ds_calibrating (store_sample info s) = ds_calibrating s"
  "ds_room_status (store_sample info s) = ds_room_status s"
  "ds_human_status (store_sample info s) = ds_human_status s"
  "s_last_send_time (store_sample info s) = s_last_send_time s"
  "g_node_id (store_sample info s) = g_node_id s"
  by (simp_all add: store_sample_def Let_def)

lemma vote_fold:
  "fold (vote_step s w_avg j_med hv) js (a, b) =
     (a + (if hv \<and> w_avg * ds_wander_sensitivity s > ds_wander_threshold s then length js else 0),
      b + length (filter (\<lambda>i. ds_jitter_threshold s > 0.0001 \<and>
              (ds_jitter_buff s (unat ((ds_buff_count s - 1 - of_nat i) mod 25)) * ds_jitter_sensitivity s
                 > ds_jitter_threshold s
               \<or> (ds_jitter_buff s (unat ((ds_buff_count s - 1 - of_nat i) mod 25)) * ds_jitter_sensitivity s
                     > j_med
                   \<and> ds_jitter_buff s (unat ((ds_buff_count s - 1 - of_nat i) mod 25)) > 0.0002))) js))"
  by (induction js arbitrary: a b) (simp_all add: vote_step_def Let_def)


lemma count_votes_eq:
  "count_votes s w_avg j_med hv =
     ((if hv \<and> w_avg * ds_wander_sensitivity s > ds_wander_threshold s then 5 else 0),
      length (filter (\<lambda>i. ds_jitter_threshold s > 0.0001 \<and>
              (ds_jitter_buff s (unat ((ds_buff_count s - 1 - of_nat i) mod 25)) * ds_jitter_sensitivity s
                 > ds_jitter_threshold s
               \<or> (ds_jitter_buff s (unat ((ds_buff_count s - 1 - of_nat i) mod 25)) * ds_jitter_sensitivity s
                     > j_med
                   \<and> ds_jitter_buff s (unat ((ds_buff_count s - 1 - of_nat i) mod 25)) > 0.0002))) [0..<5]))"
  unfolding count_votes_def vote_fold by simp

lemma window_total:
  "\<exists>w. trimmean a (map f [0..<RADAR_BUFF_MAX_LEN]) 0.5 = Some w"
  by (rule trimmean_window_total) (simp add: RADAR_BUFF_MAX_LEN_def)

lemma wifi_radar_cb_total: "\<exists>s' out. wifi_radar_cb env info s = Some (s', out)"
proof -
  obtain w where "trimmean (env_trimmean_alloc env)
      (map (ds_wander_buff (store_sample info s)) [0..<RADAR_BUFF_MAX_LEN]) 0.5 = Some w"
    using window_total by blast
  then show ?thesis
    by (simp add: wifi_radar_cb_def Let_def)
qed

lemma wifi_radar_cb_cold:
  "ds_buff_count s + 1 < 5 \<Longrightarrow>
   wifi_radar_cb env info s = Some (store_sample info s, \<lparr>out_led = None, out_report = None\<rparr>)"
  by (simp add: wifi_radar_cb_def Let_def)

lemma wifi_radar_cb_frame:
  assumes "wifi_radar_cb env info s = Some (s', out)"
  shows "ds_jitter_buff s' = ds_jitter_buff (store_sample info s)"
    and "ds_wander_buff s' = ds_wander_buff (store_sample info s)"
    and "ds_buff_count s' = ds_buff_count s + 1"
    and "ds_wander_threshold s' = ds_wander_threshold s"
    and "ds_jitter_threshold s' = ds_jitter_threshold s"
    and "ds_wander_sensitivity s' = ds_wander_sensitivity s"
    and "ds_jitter_sensitivity s' = ds_jitter_sensitivity s"
    and "ds_calibrating s' = ds_calibrating s"
    and "g_node_id s' = g_node_id s"
  using assms
  by (auto simp: wifi_radar_cb_def Let_def split: if_splits option.splits)

lemma wifi_radar_cb_status:
  assumes "wifi_radar_cb env info s = Some (s', out)"
    and "\<not> ds_buff_count s + 1 < 5"
    and "trimmean (env_trimmean_alloc env)
           (map (ds_wander_buff (store_sample info s)) [0..<RADAR_BUFF_MAX_LEN]) 0.5 = Some w_avg"
  shows "ds_room_status s' =
           (ds_wander_threshold s > 0.0001 \<and>
            1 \<le> fst (count_votes (store_sample info s) w_avg
                       (median (env_median_alloc env)
                          (map (ds_jitter_buff (store_sample info s)) [0..<RADAR_BUFF_MAX_LEN]))
                       (ds_wander_threshold s > 0.0001)))"
    and "ds_human_status s' =
           (ds_jitter_threshold s > 0.0001 \<and>
            2 \<le> snd (count_votes (store_sample info s) w_avg
                       (median (env_median_alloc env)
                          (map (ds_jitter_buff (store_sample info s)) [0..<RADAR_BUFF_MAX_LEN]))
                       (ds_wander_threshold s > 0.0001)))"
  using assms
  by (auto simp: wifi_radar_cb_def Let_def split: if_splits)

lemma wifi_radar_cb_outputs:
  assumes "wifi_radar_cb env info s = Some (s', out)"
  shows "out_led out = None \<or>
         (out_led out = Some (False, False, True) \<and> ds_calibrating s) \<or>
         (out_led out = Some (ds_room_status s', ds_human_status s', False) \<and> \<not> ds_calibrating s
            \<and> \<not> ds_buff_count s + 1 < 5)"
    and "out_report out = None \<or>
         (\<exists>r. out_report out = Some r \<and> \<not> ds_calibrating s \<and> \<not> ds_buff_count s + 1 < 5 \<and>
              rp_room_status r = (if ds_room_status s' then 1 else 0) \<and>
              rp_human_status r = (if ds_human_status s' then 1 else 0))"
  using assms
  by (auto simp: wifi_radar_cb_def Let_def send_result_to_master_def split: if_splits option.splits)



subsection \<open>The calibration flag and the master's fusion pass\<close>

lemma recalc_calibrating:
  "recalculate_link_status i (m\<lparr>ms_calibrating := b\<rparr>) =
     (recalculate_link_status i m)\<lparr>ms_calibrating := b\<rparr>"
  by (simp add: recalculate_link_status_def Let_def)

lemma fuse_link_calibrating:
  "fuse_link now i (m\<lparr>ms_calibrating := b\<rparr>, c) =
     ((fst (fuse_link now i (m, c)))\<lparr>ms_calibrating := b\<rparr>, snd (fuse_link now i (m, c)))"
  by (simp add: fuse_link_def Let_def recalc_calibrating)

lemma fold_fuse_link_calibrating:
  "fold (fuse_link now) js (m\<lparr>ms_calibrating := b\<rparr>, c) =
     ((fst (fold (fuse_link now) js (m, c)))\<lparr>ms_calibrating := b\<rparr>,
      snd (fold (fuse_link now) js (m, c)))"
proof (induction js arbitrary: m c)
  case Nil
  then show ?case by simp
next
  case (Cons j js)
  obtain m1 c1 where step: "fuse_link now j (m, c) = (m1, c1)" by (cases "fuse_link now j (m, c)")
  show ?case
    by (simp add: fuse_link_calibrating step Cons.IH)
qed

lemma fuse_loop_calibrating:
  "fuse_loop now (m\<lparr>ms_calibrating := b\<rparr>) =
     ((fst (fuse_loop now m))\<lparr>ms_calibrating := b\<rparr>, snd (fuse_loop now m))"
  unfolding fuse_loop_def by (rule fold_fuse_link_calibrating)

lemma fuse_calibrating:
  "fuse_detection_results now (m\<lparr>ms_calibrating := b\<rparr>) =
     (fuse_detection_results now m)\<lparr>ms_calibrating := b\<rparr>"
  by (simp add: fuse_detection_results_def fuse_loop_calibrating Let_def)

subsection \<open>Uncalibrated thresholds\<close>

text \<open>
  C4, as stated: a wander threshold at or below the epsilon 0.0001 gives room = false and a
  jitter threshold at or below it gives motion = false, on the slave and on the master's
  local link. The master compares its thresholds with 0, not with the epsilon: with both
  thresholds at 0.00005 its local link, and the fused state, show presence and motion.
\<close>

theorem uncalibrated_master_counterexample:
  "0 < ms_wander_threshold faint_master \<and> ms_wander_threshold faint_master \<le> 0.0001 \<and>
   0 < ms_jitter_threshold faint_master \<and> ms_jitter_threshold faint_master \<le> 0.0001 \<and>
   room_status (ms_links (fuse_detection_results 1000 faint_master) 0) \<and>
   human_status (ms_links (fuse_detection_results 1000 faint_master) 0) \<and>
   ms_room_status (fuse_detection_results 1000 faint_master) \<and>
   ms_human_status (fuse_detection_results 1000 faint_master)"
  by (simp add: faint_master_def moving_alone_def master_eval)

text \<open>
  C4, amended. On the slave a wander (jitter) threshold at or below 0.0001 means that no
  callback reports presence (motion) on the LED or in a report, and that every callback
  after warm-up stores room = false (motion = false). On the master a wander (jitter)
  threshold at or below 0 means that re-classifying an active link gives room = false
  (motion = false), whatever the sensitivity and the smoothed value.
\<close>

theorem uncalibrated_no_detection:
  "(ds_wander_threshold s \<le> 0.0001 \<longrightarrow>
      (case wifi_radar_cb env info s of
         None \<Rightarrow> False
       | Some so \<Rightarrow> \<not> reports_room (snd so) \<and>
                    (ds_buff_count s + 1 < 5 \<or> \<not> ds_room_status (fst so)))) \<and>
   (ds_jitter_threshold s \<le> 0.0001 \<longrightarrow>
      (case wifi_radar_cb env info s of
         None \<Rightarrow> False
       | Some so \<Rightarrow> \<not> reports_motion (snd so) \<and>
                    (ds_buff_count s + 1 < 5 \<or> \<not> ds_human_status (fst so)))) \<and>
   (ms_wander_threshold m \<le> 0 \<and> active (ms_links m i) \<longrightarrow>
      \<not> room_status (ms_links (recalculate_link_status i m) i)) \<and>
   (ms_jitter_threshold m \<le> 0 \<and> active (ms_links m i) \<longrightarrow>
      \<not> human_status (ms_links (recalculate_link_status i m) i))"
proof -
  obtain s' out where r: "wifi_radar_cb env info s = Some (s', out)"
    using wifi_radar_cb_total by blast
  obtain w where w: "trimmean (env_trimmean_alloc env)
      (map (ds_wander_buff (store_sample info s)) [0..<RADAR_BUFF_MAX_LEN]) 0.5 = Some w"
    using window_total by blast
  note st = wifi_radar_cb_status [OF r _ w]
  note ou = wifi_radar_cb_outputs [OF r]
  have room: "\<not> reports_room out \<and> (ds_buff_count s + 1 < 5 \<or> \<not> ds_room_status s')"
    if "ds_wander_threshold s \<le> 0.0001"
  proof -
    have warm: "\<not> ds_room_status s'" if "\<not> ds_buff_count s + 1 < 5"
      using st(1) [OF that] \<open>ds_wander_threshold s \<le> 0.0001\<close> by simp
    then show ?thesis
      using ou by (auto simp: reports_room_def split: option.splits)
  qed
  have motion: "\<not> reports_motion out \<and> (ds_buff_count s + 1 < 5 \<or> \<not> ds_human_status s')"
    if "ds_jitter_threshold s \<le> 0.0001"
  proof -
    have warm: "\<not> ds_human_status s'" if "\<not> ds_buff_count s + 1 < 5"
      using st(2) [OF that] \<open>ds_jitter_threshold s \<le> 0.0001\<close> by simp
    then show ?thesis
      using ou by (auto simp: reports_motion_def split: option.splits)
  qed
  have master: "ms_wander_threshold m \<le> 0 \<and> active (ms_links m i) \<longrightarrow>
      \<not> room_status (ms_links (recalculate_link_status i m) i)"
    "ms_jitter_threshold m \<le> 0 \<and> active (ms_links m i) \<longrightarrow>
      \<not> human_status (ms_links (recalculate_link_status i m) i)"
    by (simp_all add: recalculate_link_status_def Let_def)
  show ?thesis using room motion master by (simp add: r)
qed


theorem uncalibrated_no_detection_witness:
  "ds_wander_threshold faint_slave \<le> 0.0001 \<and> ds_jitter_threshold faint_slave \<le> 0.0001 \<and>
   ms_wander_threshold uncalibrated_master \<le> 0 \<and> ms_jitter_threshold uncalibrated_master \<le> 0 \<and>
   active (ms_links uncalibrated_master 0) \<and>
   room_status (ms_links uncalibrated_master 0) \<and>
   human_status (ms_links uncalibrated_master 0) \<and>
   (case wifi_radar_cb env_ok sample_one faint_slave of
      None \<Rightarrow> False
    | Some so \<Rightarrow> \<not> reports_room (snd so) \<and> \<not> reports_motion (snd so) \<and>
                 \<not> ds_room_status (fst so) \<and> \<not> ds_human_status (fst so)) \<and>
   \<not> room_status (ms_links (recalculate_link_status 0 uncalibrated_master) 0) \<and>
   \<not> human_status (ms_links (recalculate_link_status 0 uncalibrated_master) 0)"
proof -
  have hs: "ds_wander_threshold faint_slave \<le> 0.0001" "ds_jitter_threshold faint_slave \<le> 0.0001"
    by (simp_all add: faint_slave_def warm_slave_def g_detect_init_def)
  have hm: "ms_wander_threshold uncalibrated_master \<le> 0"
    "ms_jitter_threshold uncalibrated_master \<le> 0"
    "active (ms_links uncalibrated_master 0)"
    "room_status (ms_links uncalibrated_master 0)"
    "human_status (ms_links uncalibrated_master 0)"
    by (simp_all add: uncalibrated_master_def g_state_init_def link_fresh_def)
  have warm: "\<not> ds_buff_count faint_slave + 1 < 5"
    by (simp add: faint_slave_def warm_slave_def g_detect_init_def)
  show ?thesis
    using uncalibrated_no_detection [where s = faint_slave and env = env_ok and info = sample_one
        and m = uncalibrated_master and i = 0]
      hs hm warm
    by (cases "wifi_radar_cb env_ok sample_one faint_slave") simp_all
qed

subsection \<open>Calibration in progress\<close>

text \<open>
  C5, as stated: while calibrating, room = false and motion = false are reported on the
  master (local link and fused output) and on the slave. The master never consults its
  calibration flag when classifying: a calibrating master whose local link sees wander 1
  and jitter 1 publishes presence and motion.
\<close>

theorem calibrating_master_counterexample:
  "ms_calibrating (fuse_detection_results 1000 calibrating_master) \<and>
   room_status (ms_links (fuse_detection_results 1000 calibrating_master) 0) \<and>
   human_status (ms_links (fuse_detection_results 1000 calibrating_master) 0) \<and>
   ms_room_status (fuse_detection_results 1000 calibrating_master) \<and>
   ms_human_status (fuse_detection_results 1000 calibrating_master) \<and>
   st_calibrating (http_get_status (fuse_detection_results 1000 calibrating_master)) = 1 \<and>
   st_room (http_get_status (fuse_detection_results 1000 calibrating_master)) = 1 \<and>
   st_moving (http_get_status (fuse_detection_results 1000 calibrating_master)) = 1"
  by (simp add: calibrating_master_def moving_alone_def master_eval http_get_status_def)

text \<open>
  C5, amended. A calibrating slave sends no report and drives its LED with room = false and
  motion = false; the master's fusion pass does not depend on the calibration flag: it
  computes the same link flags and fused state as when idle and leaves the flag as it is.
\<close>

theorem calibration_suppression:
  "(ds_calibrating s \<longrightarrow>
      (case wifi_radar_cb env info s of
         None \<Rightarrow> False
       | Some so \<Rightarrow> out_report (snd so) = None \<and>
                    \<not> reports_room (snd so) \<and> \<not> reports_motion (snd so))) \<and>
   fuse_detection_results now (m\<lparr>ms_calibrating := b\<rparr>) =
     (fuse_detection_results now m)\<lparr>ms_calibrating := b\<rparr>"
proof -
  obtain s' out where r: "wifi_radar_cb env info s = Some (s', out)"
    using wifi_radar_cb_total by blast
  have "out_report out = None \<and> \<not> reports_room out \<and> \<not> reports_motion out"
    if "ds_calibrating s"
    using wifi_radar_cb_outputs [OF r] that
    by (auto simp: reports_room_def reports_motion_def split: option.splits)
  then show ?thesis by (simp add: r fuse_calibrating)
qed

text \<open>
  The calibrating slave shows the calibration indication and sends nothing, while its
  stored flags are still computed.
\<close>

theorem calibration_suppression_witness:
  "ds_calibrating calibrating_slave \<and>
   (case wifi_radar_cb env_ok sample_one calibrating_slave of
      None \<Rightarrow> False
    | Some so \<Rightarrow> out_led (snd so) = Some (False, False, True) \<and> out_report (snd so) = None \<and>
                 \<not> reports_room (snd so) \<and> \<not> reports_motion (snd so) \<and>
                 ds_room_status (fst so) \<and> ds_human_status (fst so))"
proof -
  have h: "ds_calibrating calibrating_slave"
    by (simp add: calibrating_slave_def)
  have rest: "case wifi_radar_cb env_ok sample_one calibrating_slave of
      None \<Rightarrow> False
    | Some so \<Rightarrow> out_led (snd so) = Some (False, False, True) \<and>
                 ds_room_status (fst so) \<and> ds_human_status (fst so)"
    by code_simp
  show ?thesis
    using calibration_suppression [where s = calibrating_slave and env = env_ok and info = sample_one] h rest
    by (cases "wifi_radar_cb env_ok sample_one calibrating_slave") simp_all
qed

subsection \<open>Presence voting on the slave\<close>

text \<open>
  C7, as stated, ends with: the slave's presence rule is behaviourally identical to the
  master's local-link rule. With the threshold 0.00005, the same smoothed wander 1 and the
  same sensitivity, the slave stores room = false and the master room = true.
\<close>

theorem presence_rule_master_counterexample:
  "trimmean (env_trimmean_alloc env_ok)
      (map (ds_wander_buff (store_sample sample_one faint_slave)) [0..<RADAR_BUFF_MAX_LEN]) 0.5 = Some 1 \<and>
   (case wifi_radar_cb env_ok sample_one faint_slave of
      None \<Rightarrow> False | Some so \<Rightarrow> \<not> ds_room_status (fst so)) \<and>
   active (ms_links faint_master 0) \<and> wander (ms_links faint_master 0) = 1 \<and>
   wander_sensitivity (ms_links faint_master 0) = ds_wander_sensitivity faint_slave \<and>
   ms_wander_threshold faint_master = ds_wander_threshold faint_slave \<and>
   room_status (ms_links (recalculate_link_status 0 faint_master) 0)"
proof -
  have a: "trimmean (env_trimmean_alloc env_ok)
      (map (ds_wander_buff (store_sample sample_one faint_slave)) [0..<RADAR_BUFF_MAX_LEN]) 0.5 = Some 1"
    by code_simp
  have b: "case wifi_radar_cb env_ok sample_one faint_slave of
      None \<Rightarrow> False | Some so \<Rightarrow> \<not> ds_room_status (fst so)"
    by code_simp
  have c: "active (ms_links faint_master 0) \<and> wander (ms_links faint_master 0) = 1 \<and>
   wander_sensitivity (ms_links faint_master 0) = ds_wander_sensitivity faint_slave \<and>
   ms_wander_threshold faint_master = ds_wander_threshold faint_slave \<and>
   room_status (ms_links (recalculate_link_status 0 faint_master) 0)"
    by (simp add: faint_master_def moving_alone_def master_eval faint_slave_def warm_slave_def
          g_detect_init_def)
  show ?thesis using a b c by blast
qed

text \<open>
  C7, amended. After warm-up, with \<open>w_avg\<close> the trimmed mean of the wander buffer: the
  presence vote count of the loop is 0 or 5, the stored room status is the single
  comparison \<open>wander_threshold > 0.0001 \<and> w_avg * wander_sensitivity > wander_threshold\<close>,
  and it equals what the master's rule gives a link with the same smoothed wander,
  sensitivity and threshold whenever the threshold is above 0.0001 or not positive.
\<close>

theorem presence_vote_single_comparison:
  "\<not> ds_buff_count s + 1 < 5 \<longrightarrow>
   (case trimmean (env_trimmean_alloc env)
           (map (ds_wander_buff (store_sample info s)) [0..<RADAR_BUFF_MAX_LEN]) 0.5 of
      None \<Rightarrow> False
    | Some w_avg \<Rightarrow>
        (case wifi_radar_cb env info s of
           None \<Rightarrow> False
         | Some so \<Rightarrow>
             (fst (count_votes (store_sample info s) w_avg j_med (ds_wander_threshold s > 0.0001)) = 0 \<or>
              fst (count_votes (store_sample info s) w_avg j_med (ds_wander_threshold s > 0.0001)) = 5) \<and>
             ds_room_status (fst so) =
               spec_room w_avg (ds_wander_sensitivity s) (ds_wander_threshold s) \<and>
             (active (ms_links m i) \<and> wander (ms_links m i) = w_avg \<and>
              wander_sensitivity (ms_links m i) = ds_wander_sensitivity s \<and>
              ms_wander_threshold m = ds_wander_threshold s \<and>
              (ds_wander_threshold s > 0.0001 \<or> ds_wander_threshold s \<le> 0) \<longrightarrow>
              room_status (ms_links (recalculate_link_status i m) i) = ds_room_status (fst so))))"
proof -
  obtain s' out where r: "wifi_radar_cb env info s = Some (s', out)"
    using wifi_radar_cb_total by blast
  obtain w where w: "trimmean (env_trimmean_alloc env)
      (map (ds_wander_buff (store_sample info s)) [0..<RADAR_BUFF_MAX_LEN]) 0.5 = Some w"
    using window_total by blast
  have votes: "fst (count_votes (store_sample info s) w j_med (ds_wander_threshold s > 0.0001)) = 0 \<or>
               fst (count_votes (store_sample info s) w j_med (ds_wander_threshold s > 0.0001)) = 5"
    by (simp add: count_votes_eq)
  have room: "ds_room_status s' = spec_room w (ds_wander_sensitivity s) (ds_wander_threshold s)"
    if "\<not> ds_buff_count s + 1 < 5"
    using wifi_radar_cb_status(1) [OF r that w]
    by (simp add: count_votes_eq spec_room_def)
  have master: "room_status (ms_links (recalculate_link_status i m) i) =
                spec_room w (ds_wander_sensitivity s) (ds_wander_threshold s)"
    if "active (ms_links m i)" "wander (ms_links m i) = w"
       "wander_sensitivity (ms_links m i) = ds_wander_sensitivity s"
       "ms_wander_threshold m = ds_wander_threshold s"
       "ds_wander_threshold s > 0.0001 \<or> ds_wander_threshold s \<le> 0"
    using that by (auto simp: recalculate_link_status_def Let_def spec_room_def)
  show ?thesis
    unfolding w r using votes room master by simp
qed

theorem presence_vote_single_comparison_witness:
  "\<not> ds_buff_count warm_slave + 1 < 5 \<and>
   trimmean (env_trimmean_alloc env_ok)
      (map (ds_wander_buff (store_sample sample_one warm_slave)) [0..<RADAR_BUFF_MAX_LEN]) 0.5 = Some 1 \<and>
   active (ms_links moving_alone 0) \<and> wander (ms_links moving_alone 0) = 1 \<and>
   wander_sensitivity (ms_links moving_alone 0) = ds_wander_sensitivity warm_slave \<and>
   ms_wander_threshold moving_alone = ds_wander_threshold warm_slave \<and>
   ds_wander_threshold warm_slave > 0.0001 \<and>
   fst (count_votes (store_sample sample_one warm_slave) 1 0 (ds_wander_threshold warm_slave > 0.0001)) = 5 \<and>
   spec_room 1 (ds_wander_sensitivity warm_slave) (ds_wander_threshold warm_slave) \<and>
   (case wifi_radar_cb env_ok sample_one warm_slave of
      None \<Rightarrow> False | Some so \<Rightarrow> ds_room_status (fst so)) \<and>
   room_status (ms_links (recalculate_link_status 0 moving_alone) 0)"
proof -
  have warm: "\<not> ds_buff_count warm_slave + 1 < 5"
    by (simp add: warm_slave_def g_detect_init_def)
  have w: "trimmean (env_trimmean_alloc env_ok)
      (map (ds_wander_buff (store_sample sample_one warm_slave)) [0..<RADAR_BUFF_MAX_LEN]) 0.5 = Some 1"
    by code_simp
  have hm: "active (ms_links moving_alone 0)" "wander (ms_links moving_alone 0) = 1"
    "wander_sensitivity (ms_links moving_alone 0) = ds_wander_sensitivity warm_slave"
    "ms_wander_threshold moving_alone = ds_wander_threshold warm_slave"
    "ds_wander_threshold warm_slave > 0.0001"
    by (simp_all add: moving_alone_def g_state_init_def link_fresh_def warm_slave_def
          g_detect_init_def)
  have sp: "spec_room 1 (ds_wander_sensitivity warm_slave) (ds_wander_threshold warm_slave)"
    by (simp add: spec_room_def warm_slave_def g_detect_init_def)
  have v: "fst (count_votes (store_sample sample_one warm_slave) 1 0
                 (ds_wander_threshold warm_slave > 0.0001)) = 5"
    by code_simp
  note th = presence_vote_single_comparison [where s = warm_slave and env = env_ok
        and info = sample_one and j_med = 0 and m = moving_alone and i = 0,
        unfolded w option.case]
  show ?thesis
    using th warm hm sp v w
    by (cases "wifi_radar_cb env_ok sample_one warm_slave") simp_all
qed

subsection \<open>Default thresholds\<close>

text \<open>
  C10. The slave's initial thresholds are 0.01 and 0.001, both above the epsilon 0.0001,
  and some input makes the slave report presence and motion with no calibration performed:
  a run of radar samples only, received by the initial state, after which a further sample
  is stored and reported as presence and motion: seven samples with wander 1 and jitter 1,
  100 ms apart, are such an input.
\<close>

theorem slave_default_thresholds_detect:
  "ds_wander_threshold g_detect_init = 0.01 \<and> ds_jitter_threshold g_detect_init = 0.001 \<and>
   0.0001 < ds_wander_threshold g_detect_init \<and> 0.0001 < ds_jitter_threshold g_detect_init \<and>
   \<not> ds_calibrating g_detect_init \<and>
   (\<exists>samples env info.
      case feed_events f32 g_detect_init (map (\<lambda>ei. RadarSample (fst ei) (snd ei)) samples) of
        None \<Rightarrow> False
      | Some s \<Rightarrow>
          (case wifi_radar_cb env info s of
             None \<Rightarrow> False
           | Some so \<Rightarrow>
               ds_room_status (fst so) \<and> ds_human_status (fst so) \<and>
               out_led (snd so) = Some (True, True, False) \<and>
               (case out_report (snd so) of
                  None \<Rightarrow> False
                | Some r \<Rightarrow> rp_room_status r = 1 \<and> rp_human_status r = 1)))"
proof -
  have run: "case feed_events f32 g_detect_init
                (map (\<lambda>ei. RadarSample (fst ei) (snd ei)) six_samples) of
        None \<Rightarrow> False
      | Some s \<Rightarrow>
          (case wifi_radar_cb (env_at 700) sample_one s of
             None \<Rightarrow> False
           | Some so \<Rightarrow>
               ds_room_status (fst so) \<and> ds_human_status (fst so) \<and>
               out_led (snd so) = Some (True, True, False) \<and>
               (case out_report (snd so) of
                  None \<Rightarrow> False
                | Some r \<Rightarrow> rp_room_status r = 1 \<and> rp_human_status r = 1))"
    by code_simp
  have th: "ds_wander_threshold g_detect_init = 0.01 \<and> ds_jitter_threshold g_detect_init = 0.001 \<and>
   0.0001 < ds_wander_threshold g_detect_init \<and> 0.0001 < ds_jitter_threshold g_detect_init \<and>
   \<not> ds_calibrating g_detect_init"
    by (simp add: g_detect_init_def)
  from run have "\<exists>samples env info.
      case feed_events f32 g_detect_init (map (\<lambda>ei. RadarSample (fst ei) (snd ei)) samples) of
        None \<Rightarrow> False
      | Some s \<Rightarrow>
          (case wifi_radar_cb env info s of
             None \<Rightarrow> False
           | Some so \<Rightarrow>
               ds_room_status (fst so) \<and> ds_human_status (fst so) \<and>
               out_led (snd so) = Some (True, True, False) \<and>
               (case out_report (snd so) of
                  None \<Rightarrow> False
                | Some r \<Rightarrow> rp_room_status r = 1 \<and> rp_human_status r = 1))"
    by blast
  with th show ?thesis by blast
qed

subsection \<open>Motion voting on the slave\<close>

text \<open>
  A run from a state with sample counter 0 keeps, for each of the last 25 samples, its
  jitter value in the slot given by its number modulo 25; the counter equals the number of
  samples as long as that is below \<open>2\<^sup>3\<^sup>2\<close>.
\<close>

lemma unat_of_nat_mod25:
  "n < 2 ^ 32 \<Longrightarrow> unat ((of_nat n :: 32 word) mod 25) = n mod 25"
  by (simp add: unat_mod unat_of_nat)

lemma word_index_back:
  "i \<le> n \<Longrightarrow> (of_nat (Suc n) :: 32 word) - 1 - of_nat i = of_nat (n - i)"
  by simp

lemma warm_count:
  "4 \<le> n \<Longrightarrow> n < 2 ^ 32 - 1 \<Longrightarrow> \<not> (of_nat n :: 32 word) + 1 < 5"
proof -
  assume a: "4 \<le> n" "n < 2 ^ 32 - 1"
  have e: "(of_nat n :: 32 word) + 1 = of_nat (Suc n)" by simp
  have "unat (of_nat (Suc n) :: 32 word) = Suc n mod 2 ^ LENGTH(32)"
    by (rule unat_of_nat)
  also have "\<dots> = Suc n" using a by simp
  finally have u: "unat (of_nat (Suc n) :: 32 word) = Suc n" .
  show ?thesis unfolding e word_less_nat_alt u using a by simp
qed

lemma mod25_distinct: "m < n \<Longrightarrow> n - m < 25 \<Longrightarrow> m mod 25 \<noteq> n mod (25::nat)"
proof
  assume a: "m < n" "n - m < 25" "m mod 25 = n mod 25"
  then have "25 dvd n - m"
    by (metis mod_eq_dvd_iff_nat less_imp_le_nat)
  then show False using a by (auto dest: dvd_imp_le)
qed


lemma espnow_recv_cb_frame:
  "ds_jitter_buff (fst (espnow_recv_cb f32 trained data s)) = ds_jitter_buff s"
  "ds_buff_count (fst (espnow_recv_cb f32 trained data s)) = ds_buff_count s"
  by (simp_all add: espnow_recv_cb_def Let_def)

lemma feed_events_append:
  "feed_events f32 s (xs @ ys) =
     (case feed_events f32 s xs of None \<Rightarrow> None | Some s1 \<Rightarrow> feed_events f32 s1 ys)"
proof (induction f32 s xs rule: feed_events.induct)
  case (1 f32 s)
  then show ?case by simp
next
  case (2 f32 s env info rest)
  then show ?case by (cases "wifi_radar_cb env info s") simp_all
next
  case (3 f32 s trained data rest)
  then show ?case by simp
qed

lemma radar_samples_append: "radar_samples (xs @ ys) = radar_samples xs @ radar_samples ys"
  by (induction xs rule: radar_samples.induct) simp_all

lemma feed_events_radar:
  assumes "feed_events f32 s0 (xs @ [RadarSample env info]) = Some s"
  obtains s1 out where "feed_events f32 s0 xs = Some s1"
    and "wifi_radar_cb env info s1 = Some (s, out)"
proof -
  from assms obtain s1 where s1: "feed_events f32 s0 xs = Some s1"
    and last: "feed_events f32 s1 [RadarSample env info] = Some s"
    unfolding feed_events_append by (cases "feed_events f32 s0 xs") simp_all
  from last obtain so where so: "wifi_radar_cb env info s1 = Some so" "fst so = s"
    by (cases "wifi_radar_cb env info s1") simp_all
  then have "wifi_radar_cb env info s1 = Some (s, snd so)"
    by (cases so) simp
  with s1 show ?thesis by (rule that)
qed

lemma feed_events_packet:
  assumes "feed_events f32 s0 (xs @ [EspNowPacket trained data]) = Some s"
  obtains s1 where "feed_events f32 s0 xs = Some s1"
    and "s = fst (espnow_recv_cb f32 trained data s1)"
proof -
  from assms obtain s1 where s1: "feed_events f32 s0 xs = Some s1"
    and last: "feed_events f32 s1 [EspNowPacket trained data] = Some s"
    unfolding feed_events_append by (cases "feed_events f32 s0 xs") simp_all
  from last have "s = fst (espnow_recv_cb f32 trained data s1)" by simp
  with s1 show ?thesis by (rule that)
qed

lemma feed_events_count:
  "feed_events f32 s0 evs = Some s \<Longrightarrow>
   ds_buff_count s = ds_buff_count s0 + of_nat (length (radar_samples evs))"
proof (induction evs arbitrary: s rule: rev_induct)
  case Nil
  then show ?case by simp
next
  case (snoc x xs)
  show ?case
  proof (cases x)
    case (RadarSample env info)
    from snoc.prems obtain s1 out where s1: "feed_events f32 s0 xs = Some s1"
      and r: "wifi_radar_cb env info s1 = Some (s, out)"
      unfolding RadarSample by (rule feed_events_radar)
    show ?thesis
      using snoc.IH [OF s1] wifi_radar_cb_frame(3) [OF r]
      by (simp add: RadarSample radar_samples_append)
  next
    case (EspNowPacket trained data)
    from snoc.prems obtain s1 where s1: "feed_events f32 s0 xs = Some s1"
      and s: "s = fst (espnow_recv_cb f32 trained data s1)"
      unfolding EspNowPacket by (rule feed_events_packet)
    show ?thesis
      using snoc.IH [OF s1]
      by (simp add: s EspNowPacket radar_samples_append espnow_recv_cb_frame)
  qed
qed

lemma feed_events_window:
  assumes "ds_buff_count s0 = 0" and "feed_events f32 s0 evs = Some s"
    and "length (radar_samples evs) < 2 ^ 32" and "m < length (radar_samples evs)"
    and "length (radar_samples evs) - m \<le> 25"
  shows "ds_jitter_buff s (m mod 25) = waveform_jitter (radar_samples evs ! m)"
  using assms(2-)
proof (induction evs arbitrary: s m rule: rev_induct)
  case Nil
  then show ?case by simp
next
  case (snoc x xs)
  show ?case
  proof (cases x)
    case (EspNowPacket trained data)
    from snoc.prems(1) obtain s1 where s1: "feed_events f32 s0 xs = Some s1"
      and s: "s = fst (espnow_recv_cb f32 trained data s1)"
      unfolding EspNowPacket by (rule feed_events_packet)
    have same: "radar_samples (xs @ [x]) = radar_samples xs"
      by (simp add: EspNowPacket radar_samples_append)
    show ?thesis
      using snoc.IH [OF s1, of m] snoc.prems(2-) unfolding same
      by (simp add: s espnow_recv_cb_frame)
  next
    case (RadarSample env info)
    define past where "past = radar_samples xs"
    from snoc.prems(1) obtain s1 out where s1: "feed_events f32 s0 xs = Some s1"
      and r: "wifi_radar_cb env info s1 = Some (s, out)"
      unfolding RadarSample by (rule feed_events_radar)
    have more: "radar_samples (xs @ [x]) = past @ [info]"
      by (simp add: RadarSample radar_samples_append past_def)
    have len: "length past < 2 ^ 32" using snoc.prems(2) unfolding more by simp
    have cnt: "ds_buff_count s1 = of_nat (length past)"
      using feed_events_count [OF s1] assms(1) by (simp add: past_def)
    have slot: "unat (ds_buff_count s1 mod 25) = length past mod 25"
      unfolding cnt using len by (rule unat_of_nat_mod25)
    have buf: "ds_jitter_buff s = (ds_jitter_buff s1)(length past mod 25 := waveform_jitter info)"
      using wifi_radar_cb_frame(1) [OF r] slot by (simp add: store_sample_def Let_def)
    show ?thesis
    proof (cases "m = length past")
      case True
      then show ?thesis unfolding more by (simp add: buf)
    next
      case False
      then have m: "m < length past" using snoc.prems(3) unfolding more by simp
      moreover have "length past - m < 25" using snoc.prems(4) m unfolding more by simp
      ultimately have ne: "m mod 25 \<noteq> length past mod 25" by (rule mod25_distinct)
      have "length past - m \<le> 25" using snoc.prems(4) unfolding more by simp
      from snoc.IH [OF s1 len [unfolded past_def] m [unfolded past_def] this [unfolded past_def]]
      show ?thesis
        unfolding more using ne m by (simp add: buf nth_append past_def)
    qed
  qed
qed

lemma length_filter_map: "length (filter P (map f xs)) = length (filter (\<lambda>x. P (f x)) xs)"
  by (induction xs) simp_all

lemma feed_events_total: "\<exists>s. feed_events f32 s0 evs = Some s"
proof (induction f32 s0 evs rule: feed_events.induct)
  case (1 f32 s)
  then show ?case by simp
next
  case (2 f32 s env info rest)
  obtain s1 out where r: "wifi_radar_cb env info s = Some (s1, out)"
    using wifi_radar_cb_total by blast
  show ?case using 2 [OF r] by (simp add: r)
next
  case (3 f32 s trained data rest)
  then show ?case by simp
qed

text \<open>
  C6. On each slave sample after warm-up (at least four samples received before it since
  the counter was 0, with any commands in between), the five buffer reads of the voting
  loop are the last five raw jitter samples in reverse-chronological order, and the stored
  motion status is true iff the jitter threshold exceeds 0.0001 and at least 2 of those
  samples \<open>j\<close> get a vote, a vote being \<open>j * jitter_sensitivity > jitter_threshold\<close>, or
  \<open>j * jitter_sensitivity > jitter_smoothed\<close> and \<open>j > 0.0002\<close>, with \<open>jitter_smoothed\<close> the
  median of the jitter buffer.
\<close>

theorem slave_motion_votes:
  assumes boot: "ds_buff_count s0 = 0"
    and warm: "4 \<le> length (radar_samples evs)"
    and bound: "length (radar_samples evs) < 2 ^ 32 - 1"
  shows "case feed_events f32 s0 evs of
           None \<Rightarrow> False
         | Some s \<Rightarrow>
            (case wifi_radar_cb env info s of
               None \<Rightarrow> False
             | Some so \<Rightarrow>
                 map (\<lambda>i. ds_jitter_buff (fst so)
                            (unat ((ds_buff_count (fst so) - 1 - of_nat i) mod 25))) [0..<5] =
                   take 5 (rev (map waveform_jitter (radar_samples evs @ [info]))) \<and>
                 ds_human_status (fst so) =
                   (ds_jitter_threshold s > 0.0001 \<and>
                    2 \<le> length (filter
                            (spec_motion_vote (ds_jitter_sensitivity s) (ds_jitter_threshold s)
                               (median (env_median_alloc env)
                                  (map (ds_jitter_buff (fst so)) [0..<RADAR_BUFF_MAX_LEN])))
                            (take 5 (rev (map waveform_jitter (radar_samples evs @ [info])))))))"
proof -
  obtain s where run: "feed_events f32 s0 evs = Some s"
    using feed_events_total by blast
  define n where "n = length (radar_samples evs)"
  define all where "all = evs @ [RadarSample env info]"
  define raw where "raw = map waveform_jitter (radar_samples evs @ [info])"
  obtain s' out where r: "wifi_radar_cb env info s = Some (s', out)"
    using wifi_radar_cb_total by blast
  obtain w where w: "trimmean (env_trimmean_alloc env)
      (map (ds_wander_buff (store_sample info s)) [0..<RADAR_BUFF_MAX_LEN]) 0.5 = Some w"
    using window_total by blast
  define j_med where "j_med = median (env_median_alloc env)
      (map (ds_jitter_buff s') [0..<RADAR_BUFF_MAX_LEN])"
  define idx where "idx = (\<lambda>i. unat ((ds_buff_count s' - 1 - of_nat i) mod 25))"
  have feed_all: "feed_events f32 s0 all = Some s'"
    unfolding all_def feed_events_append using run r by simp
  have samples_all: "radar_samples all = radar_samples evs @ [info]"
    by (simp add: all_def radar_samples_append)
  have len_all: "length (radar_samples all) = Suc n" by (simp add: samples_all n_def)
  have lt: "length (radar_samples all) < 2 ^ 32" using bound by (simp add: len_all n_def)
  have cnt: "ds_buff_count s = of_nat n"
    using feed_events_count [OF run] boot by (simp add: n_def)
  have cnt': "ds_buff_count s' = of_nat (Suc n)"
    using feed_events_count [OF feed_all] boot by (simp only: len_all add_0)
  have warm': "\<not> ds_buff_count s + 1 < 5"
    unfolding cnt using warm bound unfolding n_def [symmetric] by (rule warm_count)
  have raw_all: "raw = map waveform_jitter (radar_samples all)"
    by (simp add: raw_def samples_all)
  have read: "ds_jitter_buff s' (idx i) = rev raw ! i" if "i < 5" for i
  proof -
    have i: "i \<le> n" using that warm by (simp add: n_def)
    have small: "n - i < 2 ^ 32" using bound by (simp add: n_def)
    have "idx i = (n - i) mod 25"
      unfolding idx_def cnt' word_index_back [OF i] using small by (rule unat_of_nat_mod25)
    moreover have "ds_jitter_buff s' ((n - i) mod 25) =
                   waveform_jitter (radar_samples all ! (n - i))"
      using boot feed_all lt
    proof (rule feed_events_window)
      show "n - i < length (radar_samples all)" by (simp add: len_all)
      show "length (radar_samples all) - (n - i) \<le> 25" using that i by (simp add: len_all)
    qed
    moreover have "rev raw ! i = waveform_jitter (radar_samples all ! (n - i))"
    proof -
      have "i < length raw" using i by (simp add: raw_all len_all)
      then have "rev raw ! i = raw ! (length raw - Suc i)" by (rule rev_nth)
      also have "length raw - Suc i = n - i" by (simp add: raw_all len_all)
      also have "raw ! (n - i) = waveform_jitter (radar_samples all ! (n - i))"
        unfolding raw_all by (rule nth_map) (simp add: len_all)
      finally show ?thesis .
    qed
    ultimately show ?thesis by simp
  qed
  have reads: "map (\<lambda>i. ds_jitter_buff s' (idx i)) [0..<5] = take 5 (rev raw)"
  proof (rule nth_equalityI)
    show "length (map (\<lambda>i. ds_jitter_buff s' (idx i)) [0..<5]) = length (take 5 (rev raw))"
      using warm by (simp add: raw_all len_all n_def)
  next
    fix i assume "i < length (map (\<lambda>i. ds_jitter_buff s' (idx i)) [0..<5])"
    then have i: "i < 5" by simp
    then show "map (\<lambda>i. ds_jitter_buff s' (idx i)) [0..<5] ! i = take 5 (rev raw) ! i"
      using read [OF i] by simp
  qed
  have buf: "ds_jitter_buff (store_sample info s) = ds_jitter_buff s'"
    using wifi_radar_cb_frame(1) [OF r] by simp
  have cnt1: "ds_buff_count (store_sample info s) = ds_buff_count s'"
    using wifi_radar_cb_frame(3) [OF r] by simp
  have status: "ds_human_status s' =
      (ds_jitter_threshold s > 0.0001 \<and>
       2 \<le> length (filter (\<lambda>i. ds_jitter_threshold s > 0.0001 \<and>
                spec_motion_vote (ds_jitter_sensitivity s) (ds_jitter_threshold s) j_med
                  (ds_jitter_buff s' (idx i))) [0..<5]))"
    using wifi_radar_cb_status(2) [OF r warm' w]
    unfolding count_votes_eq buf cnt1 j_med_def idx_def spec_motion_vote_def
    by simp
  have votes: "ds_human_status s' =
      (ds_jitter_threshold s > 0.0001 \<and>
       2 \<le> length (filter (spec_motion_vote (ds_jitter_sensitivity s) (ds_jitter_threshold s) j_med)
                (take 5 (rev raw))))"
  proof (cases "ds_jitter_threshold s > 0.0001")
    case True
    then show ?thesis
      unfolding status reads [symmetric] length_filter_map by simp
  next
    case False
    then show ?thesis unfolding status by simp
  qed
  show ?thesis
    unfolding run r option.case fst_conv
    using reads votes unfolding idx_def j_med_def raw_def by simp
qed

text \<open>
  After the jitter samples 1, 1, 0, 0, 0.01, 0, 0.01, with a command for another node in
  between, the loop reads 0.01, 0, 0.01, 0, 0: two votes, motion.
\<close>

theorem slave_motion_votes_witness:
  "ds_buff_count g_detect_init = 0 \<and> 4 \<le> length (radar_samples burst) \<and>
   length (radar_samples burst) < 2 ^ 32 - 1 \<and>
   (case feed_events binary32_le g_detect_init burst of
      None \<Rightarrow> False
    | Some s \<Rightarrow>
       (case wifi_radar_cb (env_at 700) (jitter_sample 0.01) s of
          None \<Rightarrow> False
        | Some so \<Rightarrow>
            map (\<lambda>i. ds_jitter_buff (fst so)
                       (unat ((ds_buff_count (fst so) - 1 - of_nat i) mod 25))) [0..<5] =
              [0.01, 0, 0.01, 0, 0] \<and>
            ds_human_status (fst so)))"
proof -
  have h1: "ds_buff_count g_detect_init = 0" by (simp add: g_detect_init_def)
  have h2: "4 \<le> length (radar_samples burst)" by (simp add: burst_def)
  have h3: "length (radar_samples burst) < 2 ^ 32 - 1" by (simp add: burst_def)
  have raw: "take 5 (rev (map waveform_jitter (radar_samples burst @ [jitter_sample 0.01]))) =
             [0.01, 0, 0.01, 0, 0]"
    by (simp add: burst_def jitter_sample_def)
  have moving: "case feed_events binary32_le g_detect_init burst of
      None \<Rightarrow> False
    | Some s \<Rightarrow>
       (case wifi_radar_cb (env_at 700) (jitter_sample 0.01) s of
          None \<Rightarrow> False
        | Some so \<Rightarrow> ds_human_status (fst so))"
    by code_simp
  note th = slave_motion_votes [OF h1 h2 h3, where ?f32.0 = binary32_le
      and env = "env_at 700" and info = "jitter_sample 0.01", unfolded raw]
  show ?thesis
  proof (cases "feed_events binary32_le g_detect_init burst")
    case None
    then show ?thesis using th by simp
  next
    case (Some s)
    show ?thesis
    proof (cases "wifi_radar_cb (env_at 700) (jitter_sample 0.01) s")
      case None
      then show ?thesis using th Some by simp
    next
      case (Some so)
      then show ?thesis
        using th moving \<open>feed_events binary32_le g_detect_init burst = Some s\<close> h1 h2 h3 by simp
    qed
  qed
qed


section \<open>Properties of sensitivity updates\<close>

text \<open>
  C9, as stated: a sensitivity value outside \<open>[0.001, 5.0]\<close> is rejected, the stored value
  unchanged, by the master's per-link update and by a slave applying a SetSensitivity
  command addressed to it. The slave copies both floats of the payload without looking at
  them: a command for node 2 carrying 10.0 twice replaces 0.15 and 0.20 by 10.
\<close>

theorem slave_sensitivity_counterexample:
  "10 \<le> length wild_payload \<and> wild_payload ! 0 = 0x13 \<and> wild_payload ! 1 = g_node_id g_detect_init \<and>
   binary32_le (take 4 (drop 2 wild_payload)) = 10 \<and>
   ds_wander_sensitivity g_detect_init = 0.15 \<and> ds_jitter_sensitivity g_detect_init = 0.20 \<and>
   ds_wander_sensitivity (fst (espnow_recv_cb binary32_le (0, 0) wild_payload g_detect_init)) = 10 \<and>
   ds_jitter_sensitivity (fst (espnow_recv_cb binary32_le (0, 0) wild_payload g_detect_init)) = 10"
  by (simp add: wild_payload_def g_detect_init_def espnow_recv_cb_def binary32_le_def Let_def)

text \<open>
  C9, amended. In the master's per-link update with a link index from 0 to 2, a wander
  (jitter) sensitivity that is absent, below 0.001 or above 5.0 leaves the stored wander
  (jitter) sensitivity of every link unchanged, and the handler still returns \<^verbatim>\<open>ESP_OK\<close>
  and answers with the stored values: nothing is clamped and no error is raised. For link
  1 or 2 the command it then broadcasts carries the stored value in place of the rejected
  one (for link 0 nothing is broadcast); whatever the request, the command carries the
  sensitivities stored after the update. A slave that applies a SetSensitivity command
  addressed to it stores both payload values as received.
\<close>

theorem sensitivity_update_validation:
  "(req_link req = Some l \<and> 0 \<le> l \<and> l \<le> 2 \<and>
    (case req_wander_sens req of None \<Rightarrow> True | Some v \<Rightarrow> v < 0.001 \<or> 5 < v) \<longrightarrow>
      wander_sensitivity (ms_links (sr_state (http_post_sensitivity (Some req) m)) j) =
        wander_sensitivity (ms_links m j) \<and>
      sr_ret (http_post_sensitivity (Some req) m) = ESP_OK \<and>
      sr_body (http_post_sensitivity (Some req) m) =
        RespLink l (wander_sensitivity (ms_links m (nat l)))
          (jitter_sensitivity (ms_links (sr_state (http_post_sensitivity (Some req) m)) (nat l))) \<and>
      sr_sent (http_post_sensitivity (Some req) m) =
        (if 0 < l
         then Some \<lparr>cmd_target = word_of_int l,
                    cmd_wander_sensitivity = wander_sensitivity (ms_links m (nat l)),
                    cmd_jitter_sensitivity =
                      jitter_sensitivity
                        (ms_links (sr_state (http_post_sensitivity (Some req) m)) (nat l))\<rparr>
         else None)) \<and>
   (req_link req = Some l \<and> 0 \<le> l \<and> l \<le> 2 \<and>
    (case req_jitter_sens req of None \<Rightarrow> True | Some v \<Rightarrow> v < 0.001 \<or> 5 < v) \<longrightarrow>
      jitter_sensitivity (ms_links (sr_state (http_post_sensitivity (Some req) m)) j) =
        jitter_sensitivity (ms_links m j) \<and>
      sr_ret (http_post_sensitivity (Some req) m) = ESP_OK \<and>
      sr_body (http_post_sensitivity (Some req) m) =
        RespLink l
          (wander_sensitivity (ms_links (sr_state (http_post_sensitivity (Some req) m)) (nat l)))
          (jitter_sensitivity (ms_links m (nat l))) \<and>
      sr_sent (http_post_sensitivity (Some req) m) =
        (if 0 < l
         then Some \<lparr>cmd_target = word_of_int l,
                    cmd_wander_sensitivity =
                      wander_sensitivity
                        (ms_links (sr_state (http_post_sensitivity (Some req) m)) (nat l)),
                    cmd_jitter_sensitivity = jitter_sensitivity (ms_links m (nat l))\<rparr>
         else None)) \<and>
   (req_link req = Some l \<and> 0 \<le> l \<and> l \<le> 2 \<longrightarrow>
      sr_sent (http_post_sensitivity (Some req) m) =
        (if 0 < l
         then Some \<lparr>cmd_target = word_of_int l,
                    cmd_wander_sensitivity =
                      wander_sensitivity
                        (ms_links (sr_state (http_post_sensitivity (Some req) m)) (nat l)),
                    cmd_jitter_sensitivity =
                      jitter_sensitivity
                        (ms_links (sr_state (http_post_sensitivity (Some req) m)) (nat l))\<rparr>
         else None)) \<and>
   (10 \<le> length data \<and> data ! 0 = 0x13 \<and> data ! 1 = g_node_id s \<longrightarrow>
      ds_wander_sensitivity (fst (espnow_recv_cb f32 trained data s)) = f32 (take 4 (drop 2 data)) \<and>
      ds_jitter_sensitivity (fst (espnow_recv_cb f32 trained data s)) = f32 (take 4 (drop 6 data)))"
proof -
  have sent: "sr_sent (http_post_sensitivity (Some req) m) =
        (if 0 < l
         then Some \<lparr>cmd_target = word_of_int l,
                    cmd_wander_sensitivity =
                      wander_sensitivity
                        (ms_links (sr_state (http_post_sensitivity (Some req) m)) (nat l)),
                    cmd_jitter_sensitivity =
                      jitter_sensitivity
                        (ms_links (sr_state (http_post_sensitivity (Some req) m)) (nat l))\<rparr>
         else None)"
    if "req_link req = Some l" "0 \<le> l" "l \<le> 2"
    using that by (auto simp: http_post_sensitivity_def Let_def split: option.splits)
  have master_wander: "wander_sensitivity (ms_links (sr_state (http_post_sensitivity (Some req) m)) j) =
        wander_sensitivity (ms_links m j) \<and>
      sr_ret (http_post_sensitivity (Some req) m) = ESP_OK \<and>
      sr_body (http_post_sensitivity (Some req) m) =
        RespLink l (wander_sensitivity (ms_links m (nat l)))
          (jitter_sensitivity (ms_links (sr_state (http_post_sensitivity (Some req) m)) (nat l)))"
    if "req_link req = Some l" "0 \<le> l" "l \<le> 2"
      "case req_wander_sens req of None \<Rightarrow> True | Some v \<Rightarrow> v < 0.001 \<or> 5 < v"
    for j
    using that by (auto simp: http_post_sensitivity_def Let_def split: option.splits)
  have master_jitter: "jitter_sensitivity (ms_links (sr_state (http_post_sensitivity (Some req) m)) j) =
        jitter_sensitivity (ms_links m j) \<and>
      sr_ret (http_post_sensitivity (Some req) m) = ESP_OK \<and>
      sr_body (http_post_sensitivity (Some req) m) =
        RespLink l
          (wander_sensitivity (ms_links (sr_state (http_post_sensitivity (Some req) m)) (nat l)))
          (jitter_sensitivity (ms_links m (nat l)))"
    if "req_link req = Some l" "0 \<le> l" "l \<le> 2"
      "case req_jitter_sens req of None \<Rightarrow> True | Some v \<Rightarrow> v < 0.001 \<or> 5 < v"
    for j
    using that by (auto simp: http_post_sensitivity_def Let_def split: option.splits)
  have sent_wander: "sr_sent (http_post_sensitivity (Some req) m) =
        (if 0 < l
         then Some \<lparr>cmd_target = word_of_int l,
                    cmd_wander_sensitivity = wander_sensitivity (ms_links m (nat l)),
                    cmd_jitter_sensitivity =
                      jitter_sensitivity
                        (ms_links (sr_state (http_post_sensitivity (Some req) m)) (nat l))\<rparr>
         else None)"
    if h: "req_link req = Some l" "0 \<le> l" "l \<le> 2"
      "case req_wander_sens req of None \<Rightarrow> True | Some v \<Rightarrow> v < 0.001 \<or> 5 < v"
  proof -
    have "wander_sensitivity (ms_links (sr_state (http_post_sensitivity (Some req) m)) (nat l)) =
          wander_sensitivity (ms_links m (nat l))"
      using master_wander [OF h, of "nat l"] by blast
    then show ?thesis using sent [OF h(1-3)] by simp
  qed
  have sent_jitter: "sr_sent (http_post_sensitivity (Some req) m) =
        (if 0 < l
         then Some \<lparr>cmd_target = word_of_int l,
                    cmd_wander_sensitivity =
                      wander_sensitivity
                        (ms_links (sr_state (http_post_sensitivity (Some req) m)) (nat l)),
                    cmd_jitter_sensitivity = jitter_sensitivity (ms_links m (nat l))\<rparr>
         else None)"
    if h: "req_link req = Some l" "0 \<le> l" "l \<le> 2"
      "case req_jitter_sens req of None \<Rightarrow> True | Some v \<Rightarrow> v < 0.001 \<or> 5 < v"
  proof -
    have "jitter_sensitivity (ms_links (sr_state (http_post_sensitivity (Some req) m)) (nat l)) =
          jitter_sensitivity (ms_links m (nat l))"
      using master_jitter [OF h, of "nat l"] by blast
    then show ?thesis using sent [OF h(1-3)] by simp
  qed
  have slave: "ds_wander_sensitivity (fst (espnow_recv_cb f32 trained data s)) =
        f32 (take 4 (drop 2 data)) \<and>
      ds_jitter_sensitivity (fst (espnow_recv_cb f32 trained data s)) = f32 (take 4 (drop 6 data))"
    if "10 \<le> length data" "data ! 0 = 0x13" "data ! 1 = g_node_id s"
    using that by (auto simp: espnow_recv_cb_def Let_def)
  show ?thesis
    using master_wander [of j] master_jitter [of j] sent_wander sent_jitter sent slave by blast
qed

text \<open>
  Link 1 is asked for 7.5 and 0.0001: both are refused, the answer and the broadcast command
  carry the stored 0.15 and 0.20.
\<close>

theorem sensitivity_update_validation_witness:
  "req_link wild_request = Some 1 \<and> (0::int) \<le> 1 \<and> (1::int) \<le> 2 \<and>
   (case req_wander_sens wild_request of None \<Rightarrow> True | Some v \<Rightarrow> v < 0.001 \<or> 5 < v) \<and>
   (case req_jitter_sens wild_request of None \<Rightarrow> True | Some v \<Rightarrow> v < 0.001 \<or> 5 < v) \<and>
   10 \<le> length wild_payload \<and> wild_payload ! 0 = 0x13 \<and>
   wild_payload ! 1 = g_node_id g_detect_init \<and>
   wander_sensitivity (ms_links (sr_state (http_post_sensitivity (Some wild_request) g_state_init)) 1) = 0.15 \<and>
   jitter_sensitivity (ms_links (sr_state (http_post_sensitivity (Some wild_request) g_state_init)) 1) = 0.20 \<and>
   sr_ret (http_post_sensitivity (Some wild_request) g_state_init) = ESP_OK \<and>
   sr_body (http_post_sensitivity (Some wild_request) g_state_init) = RespLink 1 0.15 0.20 \<and>
   sr_sent (http_post_sensitivity (Some wild_request) g_state_init) =
     Some \<lparr>cmd_target = 1, cmd_wander_sensitivity = 0.15, cmd_jitter_sensitivity = 0.20\<rparr> \<and>
   ds_wander_sensitivity (fst (espnow_recv_cb binary32_le (0, 0) wild_payload g_detect_init)) =
     binary32_le [0x00, 0x00, 0x20, 0x41]"
proof -
  have hm: "req_link wild_request = Some 1 \<and> (0::int) \<le> 1 \<and> (1::int) \<le> 2 \<and>
      (case req_wander_sens wild_request of None \<Rightarrow> True | Some v \<Rightarrow> v < 0.001 \<or> 5 < v)"
    "req_link wild_request = Some 1 \<and> (0::int) \<le> 1 \<and> (1::int) \<le> 2 \<and>
      (case req_jitter_sens wild_request of None \<Rightarrow> True | Some v \<Rightarrow> v < 0.001 \<or> 5 < v)"
    by (simp_all add: wild_request_def)
  have hs: "10 \<le> length wild_payload \<and> wild_payload ! 0 = 0x13 \<and>
      wild_payload ! 1 = g_node_id g_detect_init"
    by (simp add: wild_payload_def g_detect_init_def)
  have stored: "wander_sensitivity (ms_links g_state_init 1) = 0.15"
    "jitter_sensitivity (ms_links g_state_init 1) = 0.20"
    by (simp_all add: g_state_init_def)
  have bytes: "take 4 (drop 2 wild_payload) = [0x00, 0x00, 0x20, 0x41]"
    by (simp add: wild_payload_def)
  note th = sensitivity_update_validation [where req = wild_request and l = 1
      and m = g_state_init and j = 1 and data = wild_payload and s = g_detect_init
      and ?f32.0 = binary32_le and trained = "(0, 0)"]
  show ?thesis
    using th hm hs stored bytes by auto
qed

end
